theory Spec2Isabelle
  imports Complex_Main "HOL-Library.Word" "HOL-Library.AList"
begin

section \<open>The run-time values of \<^verbatim>\<open>src/index.ts\<close>\<close>

text \<open>
  The classifier is TypeScript; what it computes is decided by the JavaScript it compiles
  to, where the declared types (\<^verbatim>\<open>Map<number>\<close>, \<^verbatim>\<open>Map<boolean>\<close>) are not enforced.
  The embedding therefore follows the run-time values:
  \<^item> a string is its sequence of UTF-16 code units;
  \<^item> a number is \<open>NaN\<close>, an infinity or a finite value. Finite values are reals: rounding,
    overflow and the sign of zero are not part of the embedding;
  \<^item> an object literal \<^verbatim>\<open>{}\<close> is the list of its own properties in creation order, and a
    property read that finds no own property continues in \<^verbatim>\<open>Object.prototype\<close>.
\<close>

subsection \<open>Strings\<close>

type_synonym jschar = "16 word"
type_synonym jsstring = "jschar list"

definition str :: "string \<Rightarrow> jsstring" where
  "str s = map of_char s"

subsection \<open>Numbers\<close>

datatype jsnum = NaN | PInf | NInf | Fin real

fun js_add :: "jsnum \<Rightarrow> jsnum \<Rightarrow> jsnum" where
  "js_add NaN y = NaN"
| "js_add x NaN = NaN"
| "js_add PInf NInf = NaN"
| "js_add NInf PInf = NaN"
| "js_add PInf y = PInf"
| "js_add x PInf = PInf"
| "js_add NInf y = NInf"
| "js_add x NInf = NInf"
| "js_add (Fin a) (Fin b) = Fin (a + b)"

fun js_neg :: "jsnum \<Rightarrow> jsnum" where
  "js_neg NaN = NaN"
| "js_neg PInf = NInf"
| "js_neg NInf = PInf"
| "js_neg (Fin a) = Fin (- a)"

definition js_sub :: "jsnum \<Rightarrow> jsnum \<Rightarrow> jsnum" where
  "js_sub x y = js_add x (js_neg y)"

text \<open>The sign of a number, for products and quotients: \<open>None\<close> for \<open>NaN\<close>.\<close>

fun js_sign :: "jsnum \<Rightarrow> int option" where
  "js_sign NaN = None"
| "js_sign PInf = Some 1"
| "js_sign NInf = Some (- 1)"
| "js_sign (Fin a) = Some (if a > 0 then 1 else if a < 0 then - 1 else 0)"

definition signed_inf :: "int \<Rightarrow> jsnum" where
  "signed_inf sg = (if sg > 0 then PInf else if sg < 0 then NInf else NaN)"

fun js_mul :: "jsnum \<Rightarrow> jsnum \<Rightarrow> jsnum" where
  "js_mul (Fin a) (Fin b) = Fin (a * b)"
| "js_mul x y =
     (case (js_sign x, js_sign y) of
        (Some sx, Some sy) \<Rightarrow> signed_inf (sx * sy)
      | _ \<Rightarrow> NaN)"

text \<open>
  Division: a finite nonzero number over zero is an infinity, zero over zero and an
  infinity over an infinity are \<open>NaN\<close>. Zero is taken as positive.
\<close>

fun js_div :: "jsnum \<Rightarrow> jsnum \<Rightarrow> jsnum" where
  "js_div NaN y = NaN"
| "js_div x NaN = NaN"
| "js_div (Fin a) (Fin b) =
     (if b = 0 then signed_inf (if a > 0 then 1 else if a < 0 then - 1 else 0)
      else Fin (a / b))"
| "js_div (Fin a) y = Fin 0"
| "js_div x (Fin b) = (case js_sign x of Some sx \<Rightarrow> signed_inf (if b < 0 then - sx else sx) | None \<Rightarrow> NaN)"
| "js_div x y = NaN"

text \<open>\<^verbatim>\<open>Math.log\<close>.\<close>

fun js_log :: "jsnum \<Rightarrow> jsnum" where
  "js_log NaN = NaN"
| "js_log PInf = PInf"
| "js_log NInf = NaN"
| "js_log (Fin a) = (if a < 0 then NaN else if a = 0 then NInf else Fin (ln a))"

text \<open>The comparison \<^verbatim>\<open>x > y\<close>: false as soon as one side is \<open>NaN\<close>.\<close>

fun js_gt :: "jsnum \<Rightarrow> jsnum \<Rightarrow> bool" where
  "js_gt NaN y = False"
| "js_gt x NaN = False"
| "js_gt PInf y = (y \<noteq> PInf)"
| "js_gt NInf y = False"
| "js_gt (Fin a) PInf = False"
| "js_gt (Fin a) NInf = True"
| "js_gt (Fin a) (Fin b) = (a > b)"


subsection \<open>Objects and the properties they inherit\<close>

text \<open>
  An object is the association list of its own properties, in creation order.
  Every object written \<^verbatim>\<open>{}\<close> inherits the properties of \<^verbatim>\<open>Object.prototype\<close>: eleven
  built-in functions, and the accessor \<^verbatim>\<open>__proto__\<close> whose getter returns
  \<^verbatim>\<open>Object.prototype\<close> itself.
\<close>

type_synonym 'v obj = "(jsstring \<times> 'v) list"

datatype builtin = ObjectPrototype | NativeFunction jsstring

definition prototypeFunctions :: "jsstring list" where
  "prototypeFunctions = map str
     [''constructor'', ''__defineGetter__'', ''__defineSetter__'', ''hasOwnProperty'',
      ''__lookupGetter__'', ''__lookupSetter__'', ''isPrototypeOf'', ''propertyIsEnumerable'',
      ''toString'', ''valueOf'', ''toLocaleString'']"

definition inherited :: "jsstring \<Rightarrow> builtin option" where
  "inherited k =
     (if k = str ''__proto__'' then Some ObjectPrototype
      else if k = str ''constructor'' then Some (NativeFunction (str ''Object''))
      else if k \<in> set prototypeFunctions then Some (NativeFunction k)
      else None)"

datatype 'v lookup = Own 'v | Inherited builtin | Absent

text \<open>The read \<^verbatim>\<open>obj[k]\<close>.\<close>

definition get :: "'v obj \<Rightarrow> jsstring \<Rightarrow> 'v lookup" where
  "get ob k =
     (case map_of ob k of
        Some v \<Rightarrow> Own v
      | None \<Rightarrow> (case inherited k of Some b \<Rightarrow> Inherited b | None \<Rightarrow> Absent))"

text \<open>
  The write \<^verbatim>\<open>obj[k] = v\<close> of a primitive value \<open>v\<close>. An own property is overwritten in
  place and a new one is appended; the write to \<^verbatim>\<open>__proto__\<close> of an object without an own
  property of that name calls the inherited setter, which ignores a primitive.
\<close>

definition put :: "'v obj \<Rightarrow> jsstring \<Rightarrow> 'v \<Rightarrow> 'v obj" where
  "put ob k v =
     (if k = str ''__proto__'' \<and> map_of ob k = None then ob else AList.update k v ob)"

text \<open>
  \<^verbatim>\<open>Object.keys\<close>: the own keys that are array indices (canonical decimal strings below
  \<open>2\<^sup>3\<^sup>2 - 1\<close>) in ascending numeric order, then the other keys in creation order.
\<close>

definition isDigit :: "jschar \<Rightarrow> bool" where
  "isDigit c \<longleftrightarrow> 0x30 \<le> c \<and> c \<le> 0x39"

definition decimalValue :: "jsstring \<Rightarrow> nat" where
  "decimalValue s = foldl (\<lambda>n c. 10 * n + unat (c - 0x30)) 0 s"

definition isArrayIndex :: "jsstring \<Rightarrow> bool" where
  "isArrayIndex s \<longleftrightarrow>
     s \<noteq> [] \<and> list_all isDigit s \<and> (s = [0x30] \<or> hd s \<noteq> 0x30) \<and> decimalValue s < 2 ^ 32 - 1"

definition Object_keys :: "'v obj \<Rightarrow> jsstring list" where
  "Object_keys ob =
     (let ks = map fst ob
      in sort_key decimalValue (filter isArrayIndex ks) @ filter (\<lambda>k. \<not> isArrayIndex k) ks)"

subsection \<open>Primitive values and coercions\<close>

text \<open>
  The primitive values the classifier stores where its types say \<^verbatim>\<open>number\<close>: a number;
  a string, which is what \<^verbatim>\<open>+=\<close> makes of an inherited built-in; and \<^verbatim>\<open>null\<close>, which
  is what JSON makes of \<open>NaN\<close> and the infinities.
\<close>

datatype prim = Num jsnum | Str jsstring | Null

datatype jsval = Undefined | Prim prim | Builtin builtin

text \<open>
  A run leaves the embedding (\<open>Unmodelled\<close>) where it depends on state this theory does
  not describe: the properties of the built-in objects themselves, a changed prototype,
  the conversion of a string that looks like a numeric literal, the decimal form of a
  number that is not a natural number. \<open>Unmodelled\<close> is not an exception of the program;
  \<open>TypeError\<close> and \<open>FormatError\<close> are.
\<close>

datatype fault = TypeError | FormatError | Unmodelled

definition bind :: "fault + 'a \<Rightarrow> ('a \<Rightarrow> fault + 'b) \<Rightarrow> fault + 'b" where
  "bind r f = (case r of Inl e \<Rightarrow> Inl e | Inr x \<Rightarrow> f x)"

definition lookup_val :: "prim lookup \<Rightarrow> jsval" where
  "lookup_val l = (case l of Own v \<Rightarrow> Prim v | Inherited b \<Rightarrow> Builtin b | Absent \<Rightarrow> Undefined)"

text \<open>Truthiness, as \<^verbatim>\<open>!x\<close> and \<^verbatim>\<open>x || y\<close> test it.\<close>

fun truthy :: "jsval \<Rightarrow> bool" where
  "truthy Undefined = False"
| "truthy (Prim (Num n)) = (n \<noteq> NaN \<and> n \<noteq> Fin 0)"
| "truthy (Prim (Str s)) = (s \<noteq> [])"
| "truthy (Prim Null) = False"
| "truthy (Builtin b) = True"

definition truthy_flag :: "bool lookup \<Rightarrow> bool" where
  "truthy_flag l = (case l of Own b \<Rightarrow> b | Inherited b \<Rightarrow> True | Absent \<Rightarrow> False)"

text \<open>
  The string a built-in object converts to: \<^verbatim>\<open>Object.prototype.toString\<close> for the
  prototype object, the source text of a native function (as Node prints it) for a function.
\<close>

fun sourceText :: "builtin \<Rightarrow> jsstring" where
  "sourceText ObjectPrototype = str ''[object Object]''"
| "sourceText (NativeFunction name) = str ''function '' @ name @ str ''() { [native code] }''"

text \<open>
  \<^verbatim>\<open>ToNumber\<close> of a string: a string holding a character that no numeric literal holds
  converts to \<open>NaN\<close>. The embedding decides no other string.
\<close>

definition numericLiteralChar :: "jschar \<Rightarrow> bool" where
  "numericLiteralChar c \<longleftrightarrow>
     isDigit c \<or> c \<in> set (str ''+-.eExXoObBaAcCdDfFInity'')
     \<or> c \<in> set [0x09, 0x0A, 0x0B, 0x0C, 0x0D, 0x20, 0xA0, 0x1680, 0x2028, 0x2029, 0x202F, 0x205F, 0x3000, 0xFEFF]
     \<or> (0x2000 \<le> c \<and> c \<le> 0x200A)"

definition stringToNumber :: "jsstring \<Rightarrow> fault + jsnum" where
  "stringToNumber s = (if list_ex (\<lambda>c. \<not> numericLiteralChar c) s then Inr NaN else Inl Unmodelled)"

fun toNumber :: "jsval \<Rightarrow> fault + jsnum" where
  "toNumber Undefined = Inr NaN"
| "toNumber (Prim (Num n)) = Inr n"
| "toNumber (Prim (Str s)) = stringToNumber s"
| "toNumber (Prim Null) = Inr (Fin 0)"
| "toNumber (Builtin b) = stringToNumber (sourceText b)"

text \<open>The decimal form of a natural number below \<open>10\<^sup>2\<^sup>1\<close>, where JavaScript prints every digit.\<close>

function decimal :: "nat \<Rightarrow> jsstring" where
  "decimal n = (if n < 10 then [0x30 + of_nat n] else decimal (n div 10) @ [0x30 + of_nat (n mod 10)])"
  by pat_completeness auto
termination
  by (relation "measure id") auto

definition numberToString :: "jsnum \<Rightarrow> fault + jsstring" where
  "numberToString n =
     (case n of
        NaN \<Rightarrow> Inr (str ''NaN'')
      | PInf \<Rightarrow> Inr (str ''Infinity'')
      | NInf \<Rightarrow> Inr (str ''-Infinity'')
      | Fin r \<Rightarrow>
          (if 0 \<le> r \<and> r < 10 ^ 21 \<and> r = of_int \<lfloor>r\<rfloor>
           then Inr (decimal (nat \<lfloor>r\<rfloor>))
           else Inl Unmodelled))"

fun toString :: "jsval \<Rightarrow> fault + jsstring" where
  "toString Undefined = Inr (str ''undefined'')"
| "toString (Prim (Num n)) = numberToString n"
| "toString (Prim (Str s)) = Inr s"
| "toString (Prim Null) = Inr (str ''null'')"
| "toString (Builtin b) = Inr (sourceText b)"

text \<open>
  The operator \<^verbatim>\<open>+\<close>: concatenation as soon as one operand is a string or an object (which
  converts to its string), numeric addition otherwise.
\<close>

fun stringLike :: "jsval \<Rightarrow> bool" where
  "stringLike (Prim (Str s)) = True"
| "stringLike (Builtin b) = True"
| "stringLike v = False"

definition js_plus :: "jsval \<Rightarrow> jsval \<Rightarrow> fault + prim" where
  "js_plus x y =
     (if stringLike x \<or> stringLike y
      then bind (toString x) (\<lambda>a. bind (toString y) (\<lambda>b. Inr (Str (a @ b))))
      else bind (toNumber x) (\<lambda>a. bind (toNumber y) (\<lambda>b. Inr (Num (js_add a b)))))"

text \<open>The postfix \<^verbatim>\<open>x++\<close> stores \<^verbatim>\<open>ToNumber(x) + 1\<close>.\<close>

definition increment :: "jsval \<Rightarrow> fault + prim" where
  "increment x = bind (toNumber x) (\<lambda>n. Inr (Num (js_add n (Fin 1))))"

section \<open>The classifier\<close>

subsection \<open>The default tokenizer\<close>

text \<open>The class \<^verbatim>\<open>\s\<close> of a regular expression.\<close>

definition isWhiteSpace :: "jschar \<Rightarrow> bool" where
  "isWhiteSpace c \<longleftrightarrow>
     c \<in> set [0x09, 0x0A, 0x0B, 0x0C, 0x0D, 0x20, 0xA0, 0x1680, 0x2028, 0x2029, 0x202F, 0x205F, 0x3000, 0xFEFF]
     \<or> (0x2000 \<le> c \<and> c \<le> 0x200A)"

text \<open>
  \<^verbatim>\<open>/[^(a-zA-ZA-\<close>U+042F\<^verbatim>\<open>a-\<close>U+044F\<^verbatim>\<open>0-9_)+\s]/g\<close>: a code unit matches when it is none of the
  members of the negated class, read left to right: \<^verbatim>\<open>(\<close>, \<^verbatim>\<open>a-z\<close>, \<^verbatim>\<open>A-Z\<close>, the range from
  Latin \<^verbatim>\<open>A\<close> (U+0041) to Cyrillic U+042F, the range from Latin \<^verbatim>\<open>a\<close> (U+0061) to Cyrillic
  U+044F, \<^verbatim>\<open>0-9\<close>, \<^verbatim>\<open>_\<close>, \<^verbatim>\<open>)\<close>, \<^verbatim>\<open>+\<close> and \<^verbatim>\<open>\s\<close>.
\<close>

definition rgxPunctuation :: "jschar \<Rightarrow> bool" where
  "rgxPunctuation c \<longleftrightarrow>
     \<not> (c = 0x28 \<or> (0x61 \<le> c \<and> c \<le> 0x7A) \<or> (0x41 \<le> c \<and> c \<le> 0x5A)
        \<or> (0x41 \<le> c \<and> c \<le> 0x42F) \<or> (0x61 \<le> c \<and> c \<le> 0x44F)
        \<or> (0x30 \<le> c \<and> c \<le> 0x39) \<or> c = 0x5F \<or> c = 0x29 \<or> c = 0x2B \<or> isWhiteSpace c)"

text \<open>
  \<^verbatim>\<open>split(/\s+/)\<close>: the pieces between the maximal runs of white space. The text before the
  first run and the text after the last one are pieces too, also when they are empty.
\<close>

function splitWhitespace :: "jsstring \<Rightarrow> jsstring \<Rightarrow> jsstring list" where
  "splitWhitespace piece [] = [piece]"
| "splitWhitespace piece (c # cs) =
     (if isWhiteSpace c then piece # splitWhitespace [] (dropWhile isWhiteSpace cs)
      else splitWhitespace (piece @ [c]) cs)"
  by pat_completeness auto
termination
  by (relation "measure (\<lambda>(piece, cs). length cs)") (auto simp: length_dropWhile_le le_imp_less_Suc)

type_synonym Tokenizer = "jsstring \<Rightarrow> jsstring list"

definition defaultTokenizer :: Tokenizer where
  "defaultTokenizer text =
     (let sanitized = map (\<lambda>c. if rgxPunctuation c then 0x20 else c) text
      in splitWhitespace [] sanitized)"

subsection \<open>The frequency table\<close>

text \<open>
  The table is made by \<^verbatim>\<open>Object.create(null)\<close>: it inherits nothing, so a read finds own
  properties only. Its values count occurrences and are natural numbers.
\<close>

definition countToken :: "nat obj \<Rightarrow> jsstring \<Rightarrow> nat obj" where
  "countToken table token =
     (case map_of table token of
        None \<Rightarrow> AList.update token 1 table
      | Some n \<Rightarrow> if n = 0 then AList.update token 1 table else AList.update token (n + 1) table)"

definition frequencyTable :: "jsstring list \<Rightarrow> nat obj" where
  "frequencyTable tokens = foldl countToken [] tokens"

text \<open>The read \<^verbatim>\<open>frequencyTable[token]\<close> for a key of the table (each key has a value).\<close>

definition frequencyInText :: "nat obj \<Rightarrow> jsstring \<Rightarrow> jsnum" where
  "frequencyInText table token = (case map_of table token of Some n \<Rightarrow> Fin (real n) | None \<Rightarrow> NaN)"

subsection \<open>State and construction\<close>

text \<open>
  Of the \<^verbatim>\<open>options\<close> object only the member \<^verbatim>\<open>tokenizer\<close> is ever read: the object is
  modelled by that member, \<open>None\<close> when it has none.
\<close>

type_synonym ClassifierOptions = "Tokenizer option"

record bayes =
  docCount :: "prim obj"
  wordCount :: "prim obj"
  wordFrequencyCount :: "prim obj obj"
  categories :: "bool obj"
  totalDocuments :: prim
  vocabularySize :: prim
  options :: ClassifierOptions
  tokenizer :: Tokenizer
  vocabulary :: "bool obj"

text \<open>
  \<^verbatim>\<open>new Bayes(classifier, options)\<close>. Both arguments are optional. The fields of a given
  classifier are adopted as they are.
\<close>

definition new_Bayes :: "bayes option \<Rightarrow> ClassifierOptions option \<Rightarrow> bayes" where
  "new_Bayes classifier opts =
     (let options' = (case opts of Some ob \<Rightarrow> ob | None \<Rightarrow> None)
      in \<lparr> docCount = (case classifier of Some c \<Rightarrow> docCount c | None \<Rightarrow> []),
           wordCount = (case classifier of Some c \<Rightarrow> wordCount c | None \<Rightarrow> []),
           wordFrequencyCount = (case classifier of Some c \<Rightarrow> wordFrequencyCount c | None \<Rightarrow> []),
           categories = (case classifier of Some c \<Rightarrow> categories c | None \<Rightarrow> []),
           totalDocuments = (case classifier of Some c \<Rightarrow> totalDocuments c | None \<Rightarrow> Num (Fin 0)),
           vocabularySize = (case classifier of Some c \<Rightarrow> vocabularySize c | None \<Rightarrow> Num (Fin 0)),
           options = options',
           tokenizer = (case options' of Some t \<Rightarrow> t | None \<Rightarrow> defaultTokenizer),
           vocabulary = (case classifier of Some c \<Rightarrow> vocabulary c | None \<Rightarrow> []) \<rparr>)"

subsection \<open>\<^verbatim>\<open>initializeCategory\<close> and \<^verbatim>\<open>learn\<close>\<close>

text \<open>
  The third assignment stores an object: on \<^verbatim>\<open>__proto__\<close>, when that is no own property,
  it would replace the prototype of \<^verbatim>\<open>wordFrequencyCount\<close>.
\<close>

definition initializeCategory :: "bayes \<Rightarrow> jsstring \<Rightarrow> fault + bayes" where
  "initializeCategory self categoryName =
     (if \<not> truthy_flag (get (categories self) categoryName) then
        (if categoryName = str ''__proto__'' \<and> map_of (wordFrequencyCount self) categoryName = None
         then Inl Unmodelled
         else Inr (self
           \<lparr> docCount := put (docCount self) categoryName (Num (Fin 0)),
             wordCount := put (wordCount self) categoryName (Num (Fin 0)),
             wordFrequencyCount := AList.update categoryName [] (wordFrequencyCount self),
             categories := put (categories self) categoryName True \<rparr>))
      else Inr self)"

text \<open>
  The body of the \<^verbatim>\<open>forEach\<close> in \<^verbatim>\<open>learn\<close>, for one token, in its three steps: the token
  enters the vocabulary, its frequency in the category grows, and so does the word count
  of the category.
\<close>

definition updateVocabulary :: "bayes \<Rightarrow> jsstring \<Rightarrow> fault + bayes" where
  "updateVocabulary self token =
     (if \<not> truthy_flag (get (vocabulary self) token)
      then bind (increment (Prim (vocabularySize self)))
             (\<lambda>size'. Inr (self \<lparr> vocabulary := put (vocabulary self) token True,
                                  vocabularySize := size' \<rparr>))
      else Inr self)"

definition updateFrequency :: "jsstring \<Rightarrow> nat obj \<Rightarrow> bayes \<Rightarrow> jsstring \<Rightarrow> fault + bayes" where
  "updateFrequency category table self token =
     (case get (wordFrequencyCount self) category of
        Absent \<Rightarrow> Inl TypeError
      | Inherited b \<Rightarrow> Inl Unmodelled
      | Own counts \<Rightarrow>
          bind (if \<not> truthy (lookup_val (get counts token))
                then Inr (Num (frequencyInText table token))
                else js_plus (lookup_val (get counts token)) (Prim (Num (frequencyInText table token))))
            (\<lambda>v. Inr (self \<lparr> wordFrequencyCount :=
                     AList.update category (put counts token v) (wordFrequencyCount self) \<rparr>)))"

definition updateWordCount :: "jsstring \<Rightarrow> nat obj \<Rightarrow> bayes \<Rightarrow> jsstring \<Rightarrow> fault + bayes" where
  "updateWordCount category table self token =
     bind (js_plus (lookup_val (get (wordCount self) category)) (Prim (Num (frequencyInText table token))))
       (\<lambda>words. Inr (self \<lparr> wordCount := put (wordCount self) category words \<rparr>))"

definition learnToken :: "jsstring \<Rightarrow> nat obj \<Rightarrow> bayes \<Rightarrow> jsstring \<Rightarrow> fault + bayes" where
  "learnToken category table self token =
     bind (updateVocabulary self token)
       (\<lambda>self. bind (updateFrequency category table self token)
       (\<lambda>self. updateWordCount category table self token))"

fun learnTokens :: "jsstring \<Rightarrow> nat obj \<Rightarrow> bayes \<Rightarrow> jsstring list \<Rightarrow> fault + bayes" where
  "learnTokens category table self [] = Inr self"
| "learnTokens category table self (token # rest) =
     (case learnToken category table self token of
        Inl e \<Rightarrow> Inl e
      | Inr self' \<Rightarrow> learnTokens category table self' rest)"

definition learn :: "bayes \<Rightarrow> jsstring \<Rightarrow> jsstring \<Rightarrow> fault + bayes" where
  "learn self text category =
     bind (initializeCategory self category)
       (\<lambda>self. bind (increment (lookup_val (get (docCount self) category)))
       (\<lambda>count. bind (increment (Prim (totalDocuments self)))
       (\<lambda>documents.
          let self = self \<lparr> docCount := put (docCount self) category count, totalDocuments := documents \<rparr>;
              tokens = tokenizer self text;
              table = frequencyTable tokens
          in learnTokens category table self (Object_keys table))))"

subsection \<open>\<^verbatim>\<open>tokenProbability\<close> and \<^verbatim>\<open>categorize\<close>\<close>

text \<open>
  \<^verbatim>\<open>this.wordFrequencyCount[category][token] || 0\<close> throws a \<^verbatim>\<open>TypeError\<close> when the category
  has no entry at all; the quotient is taken of the two sums converted to numbers.
\<close>

definition tokenProbability :: "bayes \<Rightarrow> jsstring \<Rightarrow> jsstring \<Rightarrow> fault + jsnum" where
  "tokenProbability self token category =
     (case get (wordFrequencyCount self) category of
        Absent \<Rightarrow> Inl TypeError
      | Inherited b \<Rightarrow> Inl Unmodelled
      | Own counts \<Rightarrow>
          (let found = lookup_val (get counts token);
               wordFrequencyCount' = (if truthy found then found else Prim (Num (Fin 0)));
               wordCount' = lookup_val (get (wordCount self) category)
           in bind (js_plus wordFrequencyCount' (Prim (Num (Fin 1))))
                (\<lambda>numerator. bind (js_plus wordCount' (Prim (vocabularySize self)))
                (\<lambda>denominator. bind (toNumber (Prim numerator))
                (\<lambda>a. bind (toNumber (Prim denominator))
                (\<lambda>b. Inr (js_div a b)))))))"

datatype CategoryResult = CategoryResult (result_name: jsstring) (result_probability: jsnum)

record CategoryResults =
  chosenCategory :: "jsstring option"
  probability :: "jsnum option"
  categoryResults :: "CategoryResult list"

text \<open>The inner \<^verbatim>\<open>forEach\<close>: the log-probability of a category, summed over the tokens.\<close>

fun scoreTokens :: "bayes \<Rightarrow> jsstring \<Rightarrow> nat obj \<Rightarrow> jsnum \<Rightarrow> jsstring list \<Rightarrow> fault + jsnum" where
  "scoreTokens self category table logProbability [] = Inr logProbability"
| "scoreTokens self category table logProbability (token # rest) =
     (case tokenProbability self token category of
        Inl e \<Rightarrow> Inl e
      | Inr p \<Rightarrow>
          scoreTokens self category table
            (js_add logProbability (js_mul (frequencyInText table token) (js_log p))) rest)"

text \<open>
  The outer \<^verbatim>\<open>forEach\<close>, over the categories; it carries \<^verbatim>\<open>maxProbability\<close> and the result
  object under construction.
\<close>

fun scoreCategories ::
  "bayes \<Rightarrow> nat obj \<Rightarrow> jsnum \<times> CategoryResults \<Rightarrow> jsstring list \<Rightarrow> fault + jsnum \<times> CategoryResults"
where
  "scoreCategories self table acc [] = Inr acc"
| "scoreCategories self table (maxProbability, results) (category # rest) =
     (case toNumber (lookup_val (get (docCount self) category)) of
        Inl e \<Rightarrow> Inl e
      | Inr count \<Rightarrow>
     (case toNumber (Prim (totalDocuments self)) of
        Inl e \<Rightarrow> Inl e
      | Inr documents \<Rightarrow>
     (case scoreTokens self category table (js_log (js_div count documents)) (Object_keys table) of
        Inl e \<Rightarrow> Inl e
      | Inr logProbability \<Rightarrow>
          (let pushed = results \<lparr> categoryResults :=
                 categoryResults results @ [CategoryResult category logProbability] \<rparr>
           in scoreCategories self table
                (if js_gt logProbability maxProbability
                 then (logProbability,
                       pushed \<lparr> chosenCategory := Some category, probability := Some logProbability \<rparr>)
                 else (maxProbability, pushed))
                rest))))"

text \<open>
  \<^verbatim>\<open>sort((n1, n2) => n2.probability - n1.probability)\<close>. A positive value of the comparison
  function puts its first argument behind its second; \<open>NaN\<close> counts as zero. The sort is
  modelled as a stable insertion sort; where the comparison function is consistent every
  stable sort returns the same list.
\<close>

definition compareFn :: "CategoryResult \<Rightarrow> CategoryResult \<Rightarrow> jsnum" where
  "compareFn n1 n2 = js_sub (result_probability n2) (result_probability n1)"

fun insertResult :: "CategoryResult \<Rightarrow> CategoryResult list \<Rightarrow> CategoryResult list" where
  "insertResult x [] = [x]"
| "insertResult x (y # ys) =
     (if js_gt (compareFn x y) (Fin 0) then y # insertResult x ys else x # y # ys)"

definition sortResults :: "CategoryResult list \<Rightarrow> CategoryResult list" where
  "sortResults xs = foldr insertResult xs []"

definition categorize :: "bayes \<Rightarrow> jsstring \<Rightarrow> fault + CategoryResults" where
  "categorize self text =
     (let tokens = tokenizer self text;
          table = frequencyTable tokens
      in case scoreCategories self table
                (NInf, \<lparr> chosenCategory = None, probability = None, categoryResults = [] \<rparr>)
                (Object_keys (categories self)) of
           Inl e \<Rightarrow> Inl e
         | Inr (maxProbability, results) \<Rightarrow>
             Inr (results \<lparr> categoryResults := sortResults (categoryResults results) \<rparr>))"

subsection \<open>\<^verbatim>\<open>toJson\<close> and \<^verbatim>\<open>fromJson\<close>\<close>

text \<open>
  \<^verbatim>\<open>JSON.stringify\<close> and \<^verbatim>\<open>JSON.parse\<close> belong to the platform. They are parameters: a
  printer from JSON values to texts and a parser from texts to JSON values, \<open>None\<close> where
  \<^verbatim>\<open>JSON.parse\<close> throws. The type of texts is left open.
\<close>

datatype json =
    JsonNull
  | JsonBool bool
  | JsonNumber real
  | JsonString jsstring
  | JsonArray "json list"
  | JsonObject "(jsstring \<times> json) list"

text \<open>
  What \<^verbatim>\<open>JSON.stringify\<close> prints of the classifier: its own properties, the members of an
  object in the order of \<^verbatim>\<open>Object.keys\<close>, \<^verbatim>\<open>null\<close> for a number that is not finite, and
  nothing for a function (the tokenizer, also inside \<^verbatim>\<open>options\<close>).
\<close>

fun json_of_prim :: "prim \<Rightarrow> json" where
  "json_of_prim (Num (Fin r)) = JsonNumber r"
| "json_of_prim (Num n) = JsonNull"
| "json_of_prim (Str s) = JsonString s"
| "json_of_prim Null = JsonNull"

definition json_of_obj :: "('v \<Rightarrow> json) \<Rightarrow> 'v obj \<Rightarrow> json" where
  "json_of_obj f ob =
     JsonObject (map (\<lambda>k. (k, case map_of ob k of Some v \<Rightarrow> f v | None \<Rightarrow> JsonNull)) (Object_keys ob))"

definition json_of_bayes :: "bayes \<Rightarrow> json" where
  "json_of_bayes self = JsonObject
     [(str ''docCount'', json_of_obj json_of_prim (docCount self)),
      (str ''wordCount'', json_of_obj json_of_prim (wordCount self)),
      (str ''categories'', json_of_obj JsonBool (categories self)),
      (str ''options'', JsonObject []),
      (str ''vocabulary'', json_of_obj JsonBool (vocabulary self)),
      (str ''vocabularySize'', json_of_prim (vocabularySize self)),
      (str ''totalDocuments'', json_of_prim (totalDocuments self)),
      (str ''wordFrequencyCount'', json_of_obj (json_of_obj json_of_prim) (wordFrequencyCount self))]"

definition toJson :: "(json \<Rightarrow> 't) \<Rightarrow> bayes \<Rightarrow> 't" where
  "toJson JSON_stringify self = JSON_stringify (json_of_bayes self)"

text \<open>
  The constructor adopts the members of the parsed value without looking at them. The
  state record holds a member only when it has the shape the class declares (with strings
  and \<^verbatim>\<open>null\<close> among the numbers); any other parsed object is beyond the embedding.
\<close>

fun prim_of_json :: "json \<Rightarrow> prim option" where
  "prim_of_json (JsonNumber r) = Some (Num (Fin r))"
| "prim_of_json (JsonString s) = Some (Str s)"
| "prim_of_json JsonNull = Some Null"
| "prim_of_json j = None"

fun flag_of_json :: "json \<Rightarrow> bool option" where
  "flag_of_json (JsonBool b) = Some b"
| "flag_of_json j = None"

fun members_of_json :: "(json \<Rightarrow> 'v option) \<Rightarrow> (jsstring \<times> json) list \<Rightarrow> 'v obj option" where
  "members_of_json f [] = Some []"
| "members_of_json f ((k, j) # rest) =
     (case f j of
        None \<Rightarrow> None
      | Some v \<Rightarrow> (case members_of_json f rest of None \<Rightarrow> None | Some ob \<Rightarrow> Some ((k, v) # ob)))"

definition obj_of_json :: "(json \<Rightarrow> 'v option) \<Rightarrow> json option \<Rightarrow> 'v obj option" where
  "obj_of_json f j = (case j of Some (JsonObject kvs) \<Rightarrow> members_of_json f kvs | _ \<Rightarrow> None)"

definition leaf_of_json :: "json option \<Rightarrow> prim option" where
  "leaf_of_json j = (case j of Some v \<Rightarrow> prim_of_json v | None \<Rightarrow> None)"

fun json_truthy :: "json \<Rightarrow> bool" where
  "json_truthy JsonNull = False"
| "json_truthy (JsonBool b) = b"
| "json_truthy (JsonNumber r) = (r \<noteq> 0)"
| "json_truthy (JsonString s) = (s \<noteq> [])"
| "json_truthy j = True"

text \<open>
  \<^verbatim>\<open>new Bayes(parsed, parsed.options)\<close> for a parsed value other than \<^verbatim>\<open>null\<close>. A falsy value
  gives the empty classifier. A member \<^verbatim>\<open>options.tokenizer\<close> that is truthy would become the
  tokenizer without being a function.
\<close>

definition restore :: "json \<Rightarrow> fault + bayes" where
  "restore parsed =
     (case parsed of
        JsonObject kvs \<Rightarrow>
          (if (case map_of kvs (str ''options'') of
                 Some (JsonObject opts) \<Rightarrow>
                   (case map_of opts (str ''tokenizer'') of Some t \<Rightarrow> json_truthy t | None \<Rightarrow> False)
               | _ \<Rightarrow> False)
           then Inl Unmodelled
           else
             (case (obj_of_json prim_of_json (map_of kvs (str ''docCount'')),
                    obj_of_json prim_of_json (map_of kvs (str ''wordCount'')),
                    obj_of_json (\<lambda>j. obj_of_json prim_of_json (Some j)) (map_of kvs (str ''wordFrequencyCount'')),
                    obj_of_json flag_of_json (map_of kvs (str ''categories'')),
                    leaf_of_json (map_of kvs (str ''totalDocuments'')),
                    leaf_of_json (map_of kvs (str ''vocabularySize'')),
                    obj_of_json flag_of_json (map_of kvs (str ''vocabulary''))) of
                (Some dc, Some wc, Some wfc, Some cs, Some td, Some vs, Some v) \<Rightarrow>
                  Inr (new_Bayes
                    (Some \<lparr> docCount = dc, wordCount = wc, wordFrequencyCount = wfc, categories = cs,
                            totalDocuments = td, vocabularySize = vs, options = None,
                            tokenizer = defaultTokenizer, vocabulary = v \<rparr>)
                    None)
              | _ \<Rightarrow> Inl Unmodelled))
      | _ \<Rightarrow> if json_truthy parsed then Inl Unmodelled else Inr (new_Bayes None None))"

definition fromJson :: "('t \<Rightarrow> json option) \<Rightarrow> 't \<Rightarrow> fault + bayes" where
  "fromJson JSON_parse jsonStr =
     (case JSON_parse jsonStr of
        None \<Rightarrow> Inl FormatError
      | Some parsed \<Rightarrow> (case parsed of JsonNull \<Rightarrow> Inl TypeError | _ \<Rightarrow> restore parsed))"

section \<open>Reachable states\<close>

text \<open>
  A key is plain when \<^verbatim>\<open>Object.prototype\<close> has no property of that name. The states a
  client reaches from a new classifier by calls of \<^verbatim>\<open>learn\<close> that return.
\<close>

definition plain :: "jsstring \<Rightarrow> bool" where
  "plain k \<longleftrightarrow> inherited k = None"

inductive reachable :: "bayes \<Rightarrow> bool" where
  fresh: "reachable (new_Bayes None opts)"
| learned: "reachable s \<Longrightarrow> learn s text category = Inr s' \<Longrightarrow> reachable s'"

text \<open>
  What every reachable state satisfies. The counts of a frequency table are positive. The
  keys of \<^verbatim>\<open>vocabulary\<close> are counted by \<^verbatim>\<open>vocabularySize\<close>. Every category in \<^verbatim>\<open>categories\<close>
  is plain, has a positive document count, a word count, and frequencies that are positive
  numbers at every plain token; and \<^verbatim>\<open>totalDocuments\<close> is positive once there is a category.
\<close>

definition table_ok :: "nat obj \<Rightarrow> bool" where
  "table_ok table \<longleftrightarrow> (\<forall>t n. map_of table t = Some n \<longrightarrow> 0 < n)"

definition vocab_inv :: "bayes \<Rightarrow> bool" where
  "vocab_inv s \<longleftrightarrow>
     distinct (map fst (vocabulary s)) \<and>
     (\<forall>b \<in> snd ` set (vocabulary s). b) \<and>
     vocabularySize s = Num (Fin (real (length (vocabulary s))))"

definition counts_ok :: "prim obj \<Rightarrow> bool" where
  "counts_ok counts \<longleftrightarrow>
     (\<forall>t v. map_of counts t = Some v \<longrightarrow> plain t \<longrightarrow> (\<exists>n. v = Num (Fin n) \<and> 0 < n))"

definition category_ok :: "bayes \<Rightarrow> jsstring \<Rightarrow> bool" where
  "category_ok s c \<longleftrightarrow>
     plain c \<and>
     (\<exists>d. map_of (docCount s) c = Some (Num (Fin d)) \<and> 0 < d) \<and>
     (\<exists>w. map_of (wordCount s) c = Some (Num (Fin w)) \<and> 0 \<le> w) \<and>
     (\<exists>counts. map_of (wordFrequencyCount s) c = Some counts \<and> counts_ok counts)"

definition cat_inv :: "bayes \<Rightarrow> bool" where
  "cat_inv s \<longleftrightarrow>
     (\<forall>c b. map_of (categories s) c = Some b \<longrightarrow> b \<and> category_ok s c) \<and>
     (\<exists>T. totalDocuments s = Num (Fin T) \<and> 0 \<le> T \<and> (categories s \<noteq> [] \<longrightarrow> 0 < T))"

text \<open>What a call that touches category \<open>c\<close> keeps of another category \<open>c'\<close>.\<close>

definition frame :: "jsstring \<Rightarrow> bayes \<Rightarrow> bayes \<Rightarrow> bool" where
  "frame c' s s' \<longleftrightarrow>
     map_of (docCount s') c' = map_of (docCount s) c' \<and>
     map_of (wordCount s') c' = map_of (wordCount s) c' \<and>
     map_of (wordFrequencyCount s') c' = map_of (wordFrequencyCount s) c'"

text \<open>
  The public operations on a classifier: \<^verbatim>\<open>learn\<close>, \<^verbatim>\<open>categorize\<close> and \<^verbatim>\<open>toJson\<close>, which
  act on the classifier itself (the last two without changing it), and \<^verbatim>\<open>fromJson\<close> of its
  own serialized form, which gives a new classifier.
\<close>

inductive operation :: "(json \<Rightarrow> 't) \<Rightarrow> ('t \<Rightarrow> json option) \<Rightarrow> bayes \<Rightarrow> bayes \<Rightarrow> bool"
  for JSON_stringify :: "json \<Rightarrow> 't" and JSON_parse :: "'t \<Rightarrow> json option"
where
  op_learn: "learn s text category = Inr s' \<Longrightarrow> operation JSON_stringify JSON_parse s s'"
| op_categorize: "categorize s text = result \<Longrightarrow> operation JSON_stringify JSON_parse s s"
| op_toJson: "toJson JSON_stringify s = json \<Longrightarrow> operation JSON_stringify JSON_parse s s"
| op_fromJson: "fromJson JSON_parse (toJson JSON_stringify s) = Inr s' \<Longrightarrow>
     operation JSON_stringify JSON_parse s s'"

inductive operated :: "(json \<Rightarrow> 't) \<Rightarrow> ('t \<Rightarrow> json option) \<Rightarrow> bayes \<Rightarrow> bool"
  for JSON_stringify :: "json \<Rightarrow> 't" and JSON_parse :: "'t \<Rightarrow> json option"
where
  created: "operated JSON_stringify JSON_parse (new_Bayes None opts)"
| applied: "operated JSON_stringify JSON_parse s \<Longrightarrow> operation JSON_stringify JSON_parse s s' \<Longrightarrow>
     operated JSON_stringify JSON_parse s'"


text \<open>
  The scores of a trained classifier are finite or \<open>+\<infinity>\<close>; \<open>best\<close> is what the loop of
  \<^verbatim>\<open>categorize\<close> keeps of \<^verbatim>\<open>maxProbability\<close> and the result under construction.
\<close>

definition good :: "jsnum \<Rightarrow> bool" where
  "good v \<longleftrightarrow> v = PInf \<or> (\<exists>r. v = Fin r)"



text \<open>
  What \<^verbatim>\<open>fromJson\<close> makes of a serialized value: a number that is not finite comes back as
  \<^verbatim>\<open>null\<close>, and the members of an object come back in the order of \<^verbatim>\<open>Object.keys\<close>.
\<close>

fun restored_prim :: "prim \<Rightarrow> prim" where
  "restored_prim (Num (Fin r)) = Num (Fin r)"
| "restored_prim (Num n) = Null"
| "restored_prim (Str s) = Str s"
| "restored_prim Null = Null"

definition restored_members :: "('v \<Rightarrow> 'w) \<Rightarrow> 'v obj \<Rightarrow> jsstring list \<Rightarrow> 'w obj" where
  "restored_members f ob ks =
     concat (map (\<lambda>k. case map_of ob k of Some v \<Rightarrow> [(k, f v)] | None \<Rightarrow> []) ks)"

definition restored_obj :: "('v \<Rightarrow> 'w) \<Rightarrow> 'v obj \<Rightarrow> 'w obj" where
  "restored_obj f ob = restored_members f ob (Object_keys ob)"

fun finite_prim :: "prim \<Rightarrow> bool" where
  "finite_prim (Num (Fin r)) = True"
| "finite_prim (Num n) = False"
| "finite_prim v = True"

definition finite_numbers :: "bayes \<Rightarrow> bool" where
  "finite_numbers s \<longleftrightarrow>
     list_all (\<lambda>e. finite_prim (snd e)) (docCount s) \<and>
     list_all (\<lambda>e. finite_prim (snd e)) (wordCount s) \<and>
     list_all (\<lambda>e. list_all (\<lambda>e'. finite_prim (snd e')) (snd e)) (wordFrequencyCount s) \<and>
     finite_prim (totalDocuments s) \<and> finite_prim (vocabularySize s)"

text \<open>
  Count conservation is stated for the runs of \<^verbatim>\<open>learn\<close> on texts whose tokens are plain:
  the sum of the frequencies of a category, all of them positive numbers, against its word
  count.
\<close>

fun numeric :: "prim \<Rightarrow> real" where
  "numeric (Num (Fin r)) = r"
| "numeric v = 0"

definition sumFrequencies :: "prim obj \<Rightarrow> real" where
  "sumFrequencies counts = sum_list (map (\<lambda>e. numeric (snd e)) counts)"

definition counted :: "prim obj \<Rightarrow> bool" where
  "counted counts \<longleftrightarrow> list_all (\<lambda>e. plain (fst e) \<and> (\<exists>n. snd e = Num (Fin n) \<and> 0 < n)) counts"

definition conserved :: "bayes \<Rightarrow> bool" where
  "conserved s \<longleftrightarrow>
     (\<forall>c b. map_of (categories s) c = Some b \<longrightarrow>
        (\<exists>counts. map_of (wordFrequencyCount s) c = Some counts \<and> counted counts
           \<and> map_of (wordCount s) c = Some (Num (Fin (sumFrequencies counts)))))"

inductive reachable_plain :: "bayes \<Rightarrow> bool" where
  fresh_plain: "reachable_plain (new_Bayes None opts)"
| learned_plain: "reachable_plain s \<Longrightarrow> list_all plain (tokenizer s text) \<Longrightarrow>
     learn s text category = Inr s' \<Longrightarrow> reachable_plain s'"

section \<open>Properties\<close>

subsection \<open>Results and writes\<close>

lemma bind_Inr_iff: "bind r f = Inr y \<longleftrightarrow> (\<exists>x. r = Inr x \<and> f x = Inr y)"
  by (cases r) (simp_all add: bind_def)

lemma bind_Inr [simp]: "bind (Inr x) f = f x"
  by (simp add: bind_def)

lemma bind_Inl [simp]: "bind (Inl e) f = Inl e"
  by (simp add: bind_def)

lemma map_of_put_other: "k' \<noteq> k \<Longrightarrow> map_of (put ob k v) k' = map_of ob k'"
  by (simp add: put_def update_conv')

lemma get_put_other: "k' \<noteq> k \<Longrightarrow> get (put ob k v) k' = get ob k'"
  by (simp add: get_def map_of_put_other)

lemma get_update_other: "k' \<noteq> k \<Longrightarrow> get (AList.update k v ob) k' = get ob k'"
  by (simp add: get_def update_conv')





lemma updateFrequency_frame:
  "updateFrequency c table s token = Inr s' \<Longrightarrow> c' \<noteq> c \<Longrightarrow> frame c' s s'"
  by (auto simp: updateFrequency_def frame_def bind_Inr_iff update_conv' split: lookup.splits)

lemma updateWordCount_frame:
  "updateWordCount c table s token = Inr s' \<Longrightarrow> c' \<noteq> c \<Longrightarrow> frame c' s s'"
  by (auto simp: updateWordCount_def frame_def bind_Inr_iff map_of_put_other)



subsection \<open>The frequency table and \<^verbatim>\<open>Object.keys\<close>\<close>

lemma countToken_ok: "table_ok table \<Longrightarrow> table_ok (countToken table token)"
  by (auto simp: table_ok_def countToken_def update_conv' split: option.splits if_splits)

lemma countToken_keys: "fst ` set (countToken table token) = insert token (fst ` set table)"
  by (auto simp: countToken_def dom_update split: option.splits if_splits)

lemma foldl_countToken_ok: "table_ok table \<Longrightarrow> table_ok (foldl countToken table tokens)"
  by (induction tokens arbitrary: table) (simp_all add: countToken_ok)

lemma foldl_countToken_keys:
  "fst ` set (foldl countToken table tokens) = fst ` set table \<union> set tokens"
  by (induction tokens arbitrary: table) (auto simp: countToken_keys)

lemma frequencyTable_ok: "table_ok (frequencyTable tokens)"
  unfolding frequencyTable_def by (rule foldl_countToken_ok) (simp add: table_ok_def)

lemma frequencyTable_keys: "fst ` set (frequencyTable tokens) = set tokens"
  unfolding frequencyTable_def by (simp add: foldl_countToken_keys)

lemma set_Object_keys: "set (Object_keys ob) = fst ` set ob"
  by (auto simp: Object_keys_def Let_def)



lemma frequencyInText_key:
  assumes "table_ok table" and "token \<in> fst ` set table"
  shows "\<exists>n. frequencyInText table token = Fin n \<and> 0 < n"
proof -
  from assms(2) obtain k where "map_of table token = Some k"
    by (metis domD dom_map_of_conv_image_fst)
  moreover from this assms(1) have "0 < k" by (simp add: table_ok_def)
  ultimately show ?thesis by (simp add: frequencyInText_def)
qed

subsection \<open>The vocabulary\<close>

lemma update_absent: "k \<notin> fst ` set al \<Longrightarrow> AList.update k v al = al @ [(k, v)]"
  by (induction al) auto

lemma length_update:
  "length (AList.update k v al) = (if k \<in> fst ` set al then length al else Suc (length al))"
proof -
  have "length (AList.update k v al) = length (map fst (AList.update k v al))" by simp
  also have "\<dots> = (if k \<in> fst ` set al then length al else Suc (length al))"
    by (simp add: update_keys)
  finally show ?thesis .
qed

lemma increment_count: "increment (Prim (Num (Fin r))) = Inr (Num (Fin (r + 1)))"
  by (simp add: increment_def)

lemma plus_counts: "js_plus (Prim (Num (Fin a))) (Prim (Num (Fin b))) = Inr (Num (Fin (a + b)))"
  by (simp add: js_plus_def)

lemma updateVocabulary_vocab_inv:
  assumes "vocab_inv s" and "updateVocabulary s token = Inr s'"
  shows "vocab_inv s'"
proof (cases "truthy_flag (get (vocabulary s) token)")
  case True
  with assms show ?thesis by (simp add: updateVocabulary_def)
next
  case False
  then have absent: "map_of (vocabulary s) token = None" and np: "token \<noteq> str ''__proto__''"
    using assms(1)
    by (auto simp: truthy_flag_def get_def vocab_inv_def inherited_def
             split: option.splits if_splits dest!: map_of_SomeD)
  from absent have notin: "token \<notin> fst ` set (vocabulary s)"
    by (simp add: map_of_eq_None_iff)
  from False assms have s': "s' = s \<lparr> vocabulary := AList.update token True (vocabulary s),
      vocabularySize := Num (Fin (real (length (vocabulary s)) + 1)) \<rparr>"
    using np by (auto simp: updateVocabulary_def vocab_inv_def increment_count put_def)
  have "AList.update token True (vocabulary s) = vocabulary s @ [(token, True)]"
    using notin by (rule update_absent)
  then show ?thesis
    using assms(1) notin
    by (auto simp: s' vocab_inv_def map_of_append split: option.splits)
qed

lemma updateVocabulary_size:
  assumes "vocab_inv s" and "updateVocabulary s token = Inr s'"
  shows "length (vocabulary s) \<le> length (vocabulary s')"
  using assms
  by (auto simp: updateVocabulary_def vocab_inv_def bind_Inr_iff put_def length_update split: if_splits)

lemma updateVocabulary_others:
  "updateVocabulary s token = Inr s' \<Longrightarrow>
   categories s' = categories s \<and> totalDocuments s' = totalDocuments s \<and> docCount s' = docCount s
   \<and> wordCount s' = wordCount s \<and> wordFrequencyCount s' = wordFrequencyCount s"
  by (auto simp: updateVocabulary_def bind_Inr_iff split: if_splits)

lemma updateFrequency_others:
  "updateFrequency c table s token = Inr s' \<Longrightarrow>
   categories s' = categories s \<and> totalDocuments s' = totalDocuments s \<and> docCount s' = docCount s
   \<and> wordCount s' = wordCount s \<and> vocabulary s' = vocabulary s \<and> vocabularySize s' = vocabularySize s"
  by (auto simp: updateFrequency_def bind_Inr_iff split: lookup.splits)

lemma updateWordCount_others:
  "updateWordCount c table s token = Inr s' \<Longrightarrow>
   categories s' = categories s \<and> totalDocuments s' = totalDocuments s \<and> docCount s' = docCount s
   \<and> wordFrequencyCount s' = wordFrequencyCount s \<and> vocabulary s' = vocabulary s
   \<and> vocabularySize s' = vocabularySize s"
  by (auto simp: updateWordCount_def bind_Inr_iff)

subsection \<open>The categories\<close>

lemma plain_not_proto: "plain k \<Longrightarrow> k \<noteq> str ''__proto__''"
  by (auto simp: plain_def inherited_def)

lemma get_plain: "plain k \<Longrightarrow> get ob k = (case map_of ob k of Some v \<Rightarrow> Own v | None \<Rightarrow> Absent)"
  by (simp add: get_def plain_def split: option.splits)

lemma map_of_put_plain: "plain k \<Longrightarrow> map_of (put ob k v) k' = (if k' = k then Some v else map_of ob k')"
  by (auto simp: put_def update_conv' dest: plain_not_proto)

lemma category_ok_cong:
  assumes "map_of (docCount s') c = map_of (docCount s) c"
      and "map_of (wordCount s') c = map_of (wordCount s) c"
      and "map_of (wordFrequencyCount s') c = map_of (wordFrequencyCount s) c"
  shows "category_ok s' c = category_ok s c"
  by (simp add: category_ok_def assms)

lemma category_ok_frame: "frame c s s' \<Longrightarrow> category_ok s c \<Longrightarrow> category_ok s' c"
  by (simp add: frame_def category_ok_def)

lemma cat_inv_I:
  assumes "\<And>c b. map_of (categories s) c = Some b \<Longrightarrow> b \<and> category_ok s c"
      and "totalDocuments s = Num (Fin T)" and "0 \<le> T" and "categories s \<noteq> [] \<Longrightarrow> 0 < T"
  shows "cat_inv s"
  using assms unfolding cat_inv_def by blast

lemma cat_inv_D:
  assumes "cat_inv s" and "map_of (categories s) c = Some b"
  shows "b" and "category_ok s c"
  using assms unfolding cat_inv_def by blast+

lemma cat_inv_same:
  assumes "cat_inv s" and "categories s' = categories s" and "totalDocuments s' = totalDocuments s"
      and "\<And>c b. map_of (categories s) c = Some b \<Longrightarrow> category_ok s c \<Longrightarrow> category_ok s' c"
  shows "cat_inv s'"
proof -
  from assms(1) obtain T where T: "totalDocuments s = Num (Fin T)" "0 \<le> T" "categories s \<noteq> [] \<longrightarrow> 0 < T"
    unfolding cat_inv_def by blast
  show ?thesis
  proof (rule cat_inv_I)
    fix c b
    assume "map_of (categories s') c = Some b"
    then have mem: "map_of (categories s) c = Some b" by (simp add: assms(2))
    from cat_inv_D [OF assms(1) mem] assms(4) [OF mem] show "b \<and> category_ok s' c" by simp
  next
    show "totalDocuments s' = Num (Fin T)" by (simp add: assms(3) T)
    show "0 \<le> T" by (rule T)
    show "0 < T" if "categories s' \<noteq> []" using that T by (simp add: assms(2))
  qed
qed

lemma updateVocabulary_cat_inv:
  assumes "cat_inv s" and "updateVocabulary s token = Inr s'"
  shows "cat_inv s'"
proof (rule cat_inv_same [OF assms(1)])
  note eqs = updateVocabulary_others [OF assms(2)]
  show "categories s' = categories s" "totalDocuments s' = totalDocuments s"
    using eqs by simp_all
  show "category_ok s' c" if "category_ok s c" for c
    using that eqs by (simp add: category_ok_def)
qed

lemma counts_ok_put:
  assumes "counts_ok counts" and "plain token \<Longrightarrow> \<exists>n. v = Num (Fin n) \<and> 0 < n"
  shows "counts_ok (put counts token v)"
  unfolding counts_ok_def
proof (intro allI impI)
  fix t x
  assume look: "map_of (put counts token v) t = Some x" and "plain t"
  show "\<exists>n. x = Num (Fin n) \<and> 0 < n"
  proof (cases "t = token")
    case True
    with \<open>plain t\<close> look have "x = v" by (simp add: map_of_put_plain)
    with True \<open>plain t\<close> assms(2) show ?thesis by simp
  next
    case False
    with look have "map_of counts t = Some x" by (simp add: map_of_put_other)
    with assms(1) \<open>plain t\<close> show ?thesis by (simp add: counts_ok_def)
  qed
qed

lemma updateFrequency_value:
  assumes "counts_ok counts" and "plain token" and "frequencyInText table token = Fin n" and "0 < n"
      and "(if \<not> truthy (lookup_val (get counts token))
            then Inr (Num (frequencyInText table token))
            else js_plus (lookup_val (get counts token)) (Prim (Num (frequencyInText table token)))) = Inr v"
  shows "\<exists>m. v = Num (Fin m) \<and> 0 < m"
proof (cases "map_of counts token")
  case None
  with assms show ?thesis by (auto simp: get_plain lookup_val_def)
next
  case (Some x)
  with assms(1,2) obtain k where "x = Num (Fin k)" "0 < k"
    by (auto simp: counts_ok_def)
  with Some assms show ?thesis
    by (auto simp: get_plain lookup_val_def plus_counts)
qed

lemma updateFrequency_cat_inv:
  assumes "cat_inv s" and "table_ok table" and "token \<in> fst ` set table"
      and upd: "updateFrequency c table s token = Inr s'"
  shows "cat_inv s'"
proof (rule cat_inv_same [OF assms(1)])
  note eqs = updateFrequency_others [OF upd]
  from frequencyInText_key [OF assms(2,3)] obtain n where n: "frequencyInText table token = Fin n" "0 < n"
    by blast
  show "categories s' = categories s" "totalDocuments s' = totalDocuments s"
    using eqs by simp_all
  show "category_ok s' c'" if mem: "map_of (categories s) c' = Some b" and ok: "category_ok s c'" for c' b
  proof (cases "c' = c")
    case False
    then show ?thesis using ok upd by (blast intro: category_ok_frame updateFrequency_frame)
  next
    case True
    from ok True obtain counts where counts: "map_of (wordFrequencyCount s) c = Some counts" "counts_ok counts"
      and "plain c"
      by (auto simp: category_ok_def)
    then have g: "get (wordFrequencyCount s) c = Own counts" by (simp add: get_def)
    from upd g obtain v where
      v: "(if \<not> truthy (lookup_val (get counts token))
            then Inr (Num (frequencyInText table token))
            else js_plus (lookup_val (get counts token)) (Prim (Num (frequencyInText table token)))) = Inr v"
      and s': "s' = s \<lparr> wordFrequencyCount := AList.update c (put counts token v) (wordFrequencyCount s) \<rparr>"
      by (auto simp: updateFrequency_def bind_Inr_iff)
    have "counts_ok (put counts token v)"
      using counts(2) updateFrequency_value [OF counts(2) _ n v] by (rule counts_ok_put)
    then show ?thesis
      using ok True by (simp add: category_ok_def s' update_conv')
  qed
qed

lemma updateWordCount_cat_inv:
  assumes "cat_inv s" and "table_ok table" and "token \<in> fst ` set table"
      and upd: "updateWordCount c table s token = Inr s'"
  shows "cat_inv s'"
proof (rule cat_inv_same [OF assms(1)])
  note eqs = updateWordCount_others [OF upd]
  from frequencyInText_key [OF assms(2,3)] obtain n where n: "frequencyInText table token = Fin n" "0 < n"
    by blast
  show "categories s' = categories s" "totalDocuments s' = totalDocuments s"
    using eqs by simp_all
  show "category_ok s' c'" if mem: "map_of (categories s) c' = Some b" and ok: "category_ok s c'" for c' b
  proof (cases "c' = c")
    case False
    then show ?thesis using ok upd by (blast intro: category_ok_frame updateWordCount_frame)
  next
    case True
    from ok True obtain w where w: "map_of (wordCount s) c = Some (Num (Fin w))" "0 \<le> w" and "plain c"
      by (auto simp: category_ok_def)
    then have "get (wordCount s) c = Own (Num (Fin w))" by (simp add: get_def)
    with upd n have s': "s' = s \<lparr> wordCount := put (wordCount s) c (Num (Fin (w + n))) \<rparr>"
      by (auto simp: updateWordCount_def lookup_val_def plus_counts)
    show ?thesis
      using ok True w n \<open>plain c\<close> by (simp add: category_ok_def s' map_of_put_plain)
  qed
qed

subsection \<open>\<^verbatim>\<open>learn\<close> keeps the invariants\<close>

lemma vocab_inv_same:
  "vocab_inv s \<Longrightarrow> vocabulary s' = vocabulary s \<Longrightarrow> vocabularySize s' = vocabularySize s \<Longrightarrow> vocab_inv s'"
  by (simp add: vocab_inv_def)

lemma learnToken_inv:
  assumes "vocab_inv s" and "cat_inv s" and "table_ok table" and "token \<in> fst ` set table"
      and "learnToken c table s token = Inr s'"
  shows "vocab_inv s' \<and> cat_inv s' \<and> length (vocabulary s) \<le> length (vocabulary s')"
proof -
  from assms(5) obtain s1 s2 where
    1: "updateVocabulary s token = Inr s1" and 2: "updateFrequency c table s1 token = Inr s2"
    and 3: "updateWordCount c table s2 token = Inr s'"
    by (auto simp: learnToken_def bind_Inr_iff)
  have v1: "vocab_inv s1" using assms(1) 1 by (rule updateVocabulary_vocab_inv)
  have c1: "cat_inv s1" using assms(2) 1 by (rule updateVocabulary_cat_inv)
  have l1: "length (vocabulary s) \<le> length (vocabulary s1)"
    using assms(1) 1 by (rule updateVocabulary_size)
  note e2 = updateFrequency_others [OF 2] and e3 = updateWordCount_others [OF 3]
  have v2: "vocab_inv s2" using v1 e2 by (simp add: vocab_inv_same)
  have c2: "cat_inv s2" using c1 assms(3,4) 2 by (rule updateFrequency_cat_inv)
  have "vocab_inv s'" using v2 e3 by (simp add: vocab_inv_same)
  moreover have "cat_inv s'" using c2 assms(3,4) 3 by (rule updateWordCount_cat_inv)
  moreover have "length (vocabulary s) \<le> length (vocabulary s')" using l1 e2 e3 by simp
  ultimately show ?thesis by simp
qed

lemma learnTokens_inv:
  assumes "table_ok table" and "learnTokens c table s tokens = Inr s'"
      and "vocab_inv s" and "cat_inv s" and "set tokens \<subseteq> fst ` set table"
  shows "vocab_inv s' \<and> cat_inv s' \<and> length (vocabulary s) \<le> length (vocabulary s')"
  using assms(2-)
proof (induction tokens arbitrary: s)
  case Nil
  then show ?case by simp
next
  case (Cons token rest)
  from Cons.prems(1) obtain s1 where
    1: "learnToken c table s token = Inr s1" and 2: "learnTokens c table s1 rest = Inr s'"
    by (auto split: sum.splits)
  from Cons.prems have "token \<in> fst ` set table" by simp
  from learnToken_inv [OF Cons.prems(2,3) assms(1) this 1]
  have s1: "vocab_inv s1" "cat_inv s1" "length (vocabulary s) \<le> length (vocabulary s1)" by simp_all
  from Cons.IH [OF 2 s1(1,2)] Cons.prems(4)
  have "vocab_inv s' \<and> cat_inv s' \<and> length (vocabulary s1) \<le> length (vocabulary s')" by simp
  with s1(3) show ?case by simp
qed

lemma initializeCategory_vocab:
  "initializeCategory s c = Inr s1 \<Longrightarrow> vocabulary s1 = vocabulary s \<and> vocabularySize s1 = vocabularySize s"
  by (auto simp: initializeCategory_def split: if_splits)

lemma learn_prefix_cat_inv:
  assumes inv: "cat_inv s" and init: "initializeCategory s c = Inr s1"
      and cnt: "increment (lookup_val (get (docCount s1) c)) = Inr count"
      and doc: "increment (Prim (totalDocuments s1)) = Inr documents"
  shows "cat_inv (s1 \<lparr> docCount := put (docCount s1) c count, totalDocuments := documents \<rparr>)"
    (is "cat_inv ?s2")
proof -
  from inv obtain T where T: "totalDocuments s = Num (Fin T)" "0 \<le> T"
    unfolding cat_inv_def by blast
  have td: "totalDocuments s1 = totalDocuments s"
    using init by (auto simp: initializeCategory_def split: if_splits)
  with doc T have documents: "documents = Num (Fin (T + 1))"
    by (simp add: increment_count)
  show ?thesis
  proof (cases "map_of (categories s) c")
    case (Some b)
    from cat_inv_D [OF inv Some] have b and ok: "category_ok s c" by simp_all
    with Some init have s1: "s1 = s"
      by (simp add: initializeCategory_def get_def truthy_flag_def)
    from ok obtain d where d: "map_of (docCount s) c = Some (Num (Fin d))" "0 < d" and pc: "plain c"
      by (auto simp: category_ok_def)
    with cnt s1 have count: "count = Num (Fin (d + 1))"
      by (simp add: get_def lookup_val_def increment_count)
    show ?thesis
    proof (rule cat_inv_I)
      fix c' b'
      assume "map_of (categories ?s2) c' = Some b'"
      then have mem: "map_of (categories s) c' = Some b'" by (simp add: s1)
      from cat_inv_D [OF inv mem] have b' and ok': "category_ok s c'" by simp_all
      have "category_ok ?s2 c'"
        using ok' d pc by (auto simp: category_ok_def s1 count map_of_put_plain)
      with \<open>b'\<close> show "b' \<and> category_ok ?s2 c'" by simp
    next
      show "totalDocuments ?s2 = Num (Fin (T + 1))" by (simp add: documents)
      show "0 \<le> T + 1" "0 < T + 1" using T by simp_all
    qed
  next
    case None
    show ?thesis
    proof (cases "plain c")
      case False
      with None init have s1: "s1 = s"
        by (auto simp: initializeCategory_def get_def truthy_flag_def plain_def split: option.splits)
      show ?thesis
      proof (rule cat_inv_I)
        fix c' b'
        assume "map_of (categories ?s2) c' = Some b'"
        then have mem: "map_of (categories s) c' = Some b'" by (simp add: s1)
        from cat_inv_D [OF inv mem] have b' and ok': "category_ok s c'" by simp_all
        then have "c' \<noteq> c" using False by (auto simp: category_ok_def)
        then have "category_ok ?s2 c'"
          using ok' by (simp add: category_ok_def s1 map_of_put_other)
        with \<open>b'\<close> show "b' \<and> category_ok ?s2 c'" by simp
      next
        show "totalDocuments ?s2 = Num (Fin (T + 1))" by (simp add: documents)
        show "0 \<le> T + 1" "0 < T + 1" using T by simp_all
      qed
    next
      case True
      then have np: "c \<noteq> str ''__proto__''" by (rule plain_not_proto)
      from None True have "\<not> truthy_flag (get (categories s) c)"
        by (simp add: get_plain truthy_flag_def)
      with init np have s1: "s1 = s
           \<lparr> docCount := put (docCount s) c (Num (Fin 0)),
             wordCount := put (wordCount s) c (Num (Fin 0)),
             wordFrequencyCount := AList.update c [] (wordFrequencyCount s),
             categories := put (categories s) c True \<rparr>"
        by (simp add: initializeCategory_def)
      have "get (docCount s1) c = Own (Num (Fin 0))"
        using True by (simp add: s1 get_def map_of_put_plain)
      with cnt have count: "count = Num (Fin 1)"
        by (simp add: lookup_val_def increment_count)
      show ?thesis
      proof (rule cat_inv_I)
        fix c' b'
        assume mem2: "map_of (categories ?s2) c' = Some b'"
        show "b' \<and> category_ok ?s2 c'"
        proof (cases "c' = c")
          case same: True
          with mem2 True have "b'" by (simp add: s1 map_of_put_plain)
          moreover have "category_ok ?s2 c"
            using True by (simp add: category_ok_def s1 count map_of_put_plain update_conv' counts_ok_def)
          ultimately show ?thesis using same by simp
        next
          case other: False
          with mem2 have mem: "map_of (categories s) c' = Some b'"
            by (simp add: s1 map_of_put_other)
          from cat_inv_D [OF inv mem] have b' and ok': "category_ok s c'" by simp_all
          have "category_ok ?s2 c'"
            using ok' other by (simp add: category_ok_def s1 map_of_put_other update_conv')
          with \<open>b'\<close> show ?thesis by simp
        qed
      next
        show "totalDocuments ?s2 = Num (Fin (T + 1))" by (simp add: documents)
        show "0 \<le> T + 1" "0 < T + 1" using T by simp_all
      qed
    qed
  qed
qed

lemma learn_inv:
  assumes "vocab_inv s" and "cat_inv s" and "learn s text c = Inr s'"
  shows "vocab_inv s' \<and> cat_inv s' \<and> length (vocabulary s) \<le> length (vocabulary s')"
proof -
  from assms(3) obtain s1 count documents where
    init: "initializeCategory s c = Inr s1" and
    cnt: "increment (lookup_val (get (docCount s1) c)) = Inr count" and
    doc: "increment (Prim (totalDocuments s1)) = Inr documents" and
    loop: "learnTokens c (frequencyTable (tokenizer s1 text))
             (s1 \<lparr> docCount := put (docCount s1) c count, totalDocuments := documents \<rparr>)
             (Object_keys (frequencyTable (tokenizer s1 text))) = Inr s'"
    by (auto simp: learn_def bind_Inr_iff Let_def)
  let ?s2 = "s1 \<lparr> docCount := put (docCount s1) c count, totalDocuments := documents \<rparr>"
  note v = initializeCategory_vocab [OF init]
  have "vocab_inv ?s2" using assms(1) v by (simp add: vocab_inv_def)
  moreover have "cat_inv ?s2" using assms(2) init cnt doc by (rule learn_prefix_cat_inv)
  moreover have "set (Object_keys (frequencyTable (tokenizer s1 text)))
      \<subseteq> fst ` set (frequencyTable (tokenizer s1 text))"
    by (simp add: set_Object_keys)
  ultimately have "vocab_inv s' \<and> cat_inv s' \<and> length (vocabulary ?s2) \<le> length (vocabulary s')"
    using learnTokens_inv [OF frequencyTable_ok loop] by blast
  then show ?thesis using v by simp
qed

lemma fresh_inv: "vocab_inv (new_Bayes None opts) \<and> cat_inv (new_Bayes None opts)"
  by (simp add: new_Bayes_def vocab_inv_def cat_inv_def Let_def)

lemma reachable_inv: "reachable s \<Longrightarrow> vocab_inv s \<and> cat_inv s"
proof (induction rule: reachable.induct)
  case (fresh opts)
  show ?case by (rule fresh_inv)
next
  case (learned s t c s')
  then show ?case using learn_inv by blast
qed

subsection \<open>Scores and their order\<close>

lemma good_simps [simp]: "good PInf" "good (Fin r)" "\<not> good NaN" "\<not> good NInf"
  by (simp_all add: good_def)















lemma vocabularySize_count: "vocab_inv s \<Longrightarrow> \<exists>v. vocabularySize s = Num (Fin v) \<and> 0 \<le> v"
  by (simp add: vocab_inv_def)

lemma tokenProbability_own:
  "get (wordFrequencyCount s) c = Own counts \<Longrightarrow>
   tokenProbability s token c =
     bind (js_plus (if truthy (lookup_val (get counts token)) then lookup_val (get counts token)
                    else Prim (Num (Fin 0))) (Prim (Num (Fin 1))))
       (\<lambda>numerator. bind (js_plus (lookup_val (get (wordCount s) c)) (Prim (vocabularySize s)))
       (\<lambda>denominator. bind (toNumber (Prim numerator))
       (\<lambda>a. bind (toNumber (Prim denominator))
       (\<lambda>b. Inr (js_div a b)))))"
  by (simp add: tokenProbability_def Let_def)








subsection \<open>Serialization\<close>

lemma prim_of_json_of_prim: "prim_of_json (json_of_prim v) = Some (restored_prim v)"
  by (induction v rule: restored_prim.induct) simp_all

lemma restored_prim_finite: "finite_prim v \<Longrightarrow> restored_prim v = v"
  by (induction v rule: restored_prim.induct) simp_all

lemma members_of_json_restored:
  assumes "\<And>v. g (f v) = Some (f' v)" and "set ks \<subseteq> fst ` set ob"
  shows "members_of_json g (map (\<lambda>k. (k, case map_of ob k of Some v \<Rightarrow> f v | None \<Rightarrow> JsonNull)) ks)
         = Some (restored_members f' ob ks)"
  using assms(2)
proof (induction ks)
  case Nil
  then show ?case by (simp add: restored_members_def)
next
  case (Cons k ks)
  then obtain v where "map_of ob k = Some v"
    by (metis domD dom_map_of_conv_image_fst list.set_intros(1) subsetD)
  with Cons show ?case
    by (simp add: restored_members_def assms(1))
qed

lemma obj_of_json_of_obj:
  assumes "\<And>v. g (f v) = Some (f' v)"
  shows "obj_of_json g (Some (json_of_obj f ob)) = Some (restored_obj f' ob)"
proof -
  have "set (Object_keys ob) \<subseteq> fst ` set ob"
    by (simp add: set_Object_keys)
  with assms have "members_of_json g
      (map (\<lambda>k. (k, case map_of ob k of Some v \<Rightarrow> f v | None \<Rightarrow> JsonNull)) (Object_keys ob))
      = Some (restored_members f' ob (Object_keys ob))"
    by (rule members_of_json_restored [where g = g and f = f and f' = f'])
  then show ?thesis
    by (simp add: obj_of_json_def json_of_obj_def restored_obj_def)
qed

lemma map_of_restored_members:
  "map_of (restored_members f ob ks) k = (if k \<in> set ks then map_option f (map_of ob k) else None)"
  by (induction ks) (auto simp: restored_members_def split: option.splits)

lemma map_of_restored_obj: "map_of (restored_obj f ob) k = map_option f (map_of ob k)"
proof (cases "k \<in> fst ` set ob")
  case True
  then show ?thesis by (simp add: restored_obj_def map_of_restored_members set_Object_keys)
next
  case False
  then have "map_of ob k = None" by (simp add: map_of_eq_None_iff)
  with False show ?thesis by (simp add: restored_obj_def map_of_restored_members set_Object_keys)
qed



lemma restore_json_of_bayes:
  "restore (json_of_bayes s) =
     Inr \<lparr> docCount = restored_obj restored_prim (docCount s),
           wordCount = restored_obj restored_prim (wordCount s),
           wordFrequencyCount = restored_obj (restored_obj restored_prim) (wordFrequencyCount s),
           categories = restored_obj (\<lambda>b. b) (categories s),
           totalDocuments = restored_prim (totalDocuments s),
           vocabularySize = restored_prim (vocabularySize s),
           options = None, tokenizer = defaultTokenizer,
           vocabulary = restored_obj (\<lambda>b. b) (vocabulary s) \<rparr>"
proof -
  have p: "obj_of_json prim_of_json (Some (json_of_obj json_of_prim ob)) = Some (restored_obj restored_prim ob)" for ob
    by (rule obj_of_json_of_obj) (rule prim_of_json_of_prim)
  have f: "obj_of_json flag_of_json (Some (json_of_obj JsonBool ob)) = Some (restored_obj (\<lambda>b. b) ob)" for ob
    by (rule obj_of_json_of_obj) simp
  have n: "obj_of_json (\<lambda>j. obj_of_json prim_of_json (Some j)) (Some (json_of_obj (json_of_obj json_of_prim) ob))
      = Some (restored_obj (restored_obj restored_prim) ob)" for ob
    by (rule obj_of_json_of_obj) (rule p)
  show ?thesis
    unfolding restore_def json_of_bayes_def
    by (simp add: str_def p f n leaf_of_json_def prim_of_json_of_prim new_Bayes_def)
qed

lemma fromJson_toJson:
  assumes "JSON_parse (JSON_stringify (json_of_bayes s)) = Some (json_of_bayes s)"
  shows "fromJson JSON_parse (toJson JSON_stringify s) = restore (json_of_bayes s)"
  using assms by (simp add: fromJson_def toJson_def json_of_bayes_def)

lemma restored_obj_finite:
  assumes "list_all (\<lambda>e. finite_prim (snd e)) ob"
  shows "map_of (restored_obj restored_prim ob) = map_of ob"
proof
  fix k
  show "map_of (restored_obj restored_prim ob) k = map_of ob k"
  proof (cases "map_of ob k")
    case None
    then show ?thesis by (simp add: map_of_restored_obj)
  next
    case (Some v)
    then have "(k, v) \<in> set ob" by (rule map_of_SomeD)
    with assms have "finite_prim v" by (auto simp: list_all_iff)
    with Some show ?thesis by (simp add: map_of_restored_obj restored_prim_finite)
  qed
qed

lemma restored_obj_id: "map_of (restored_obj (\<lambda>b. b) ob) = map_of ob"
  by (rule ext) (simp add: map_of_restored_obj option.map_ident)

lemma fromJson_invalid: "JSON_parse jsonStr = None \<Longrightarrow> fromJson JSON_parse jsonStr = Inl FormatError"
  by (simp add: fromJson_def)

lemma restore_no_throw: "restore parsed \<noteq> Inl TypeError \<and> restore parsed \<noteq> Inl FormatError"
  by (auto simp: restore_def split: json.splits option.splits prod.splits if_splits)

lemma fromJson_valid:
  assumes "JSON_parse jsonStr = Some parsed"
  shows "fromJson JSON_parse jsonStr \<noteq> Inl FormatError"
    and "parsed \<noteq> JsonNull \<Longrightarrow> fromJson JSON_parse jsonStr \<noteq> Inl TypeError"
  using assms restore_no_throw [of parsed]
  by (auto simp: fromJson_def split: json.splits)

subsection \<open>The vocabulary under every operation\<close>








subsection \<open>Count conservation and smoothing on plain tokens\<close>

lemma sumFrequencies_update:
  "sumFrequencies (AList.update k v counts)
     = sumFrequencies counts - (case map_of counts k of Some old \<Rightarrow> numeric old | None \<Rightarrow> 0) + numeric v"
  by (induction counts) (auto simp: sumFrequencies_def)

lemma counted_update:
  "counted counts \<Longrightarrow> plain k \<Longrightarrow> 0 < n \<Longrightarrow> counted (AList.update k (Num (Fin n)) counts)"
  by (induction counts) (auto simp: counted_def)

lemma counted_counts_ok: "counted counts \<Longrightarrow> counts_ok counts"
  by (auto simp: counted_def counts_ok_def list_all_iff dest!: map_of_SomeD)

lemma counted_lookup:
  "counted counts \<Longrightarrow> map_of counts k = Some v \<Longrightarrow> \<exists>n. v = Num (Fin n) \<and> 0 < n"
  by (auto simp: counted_def list_all_iff dest!: map_of_SomeD)

lemma counted_nonneg: "counted counts \<Longrightarrow> (k, v) \<in> set counts \<Longrightarrow> 0 \<le> numeric v"
  by (auto simp: counted_def list_all_iff)

lemma counted_le_sum:
  "counted counts \<Longrightarrow> (k, v) \<in> set counts \<Longrightarrow> numeric v \<le> sumFrequencies counts"
proof (induction counts)
  case Nil
  then show ?case by simp
next
  case (Cons e counts)
  have tail: "counted counts" using Cons.prems(1) by (simp add: counted_def)
  have nonneg: "0 \<le> sumFrequencies counts"
    unfolding sumFrequencies_def
    by (rule sum_list_nonneg) (use tail in \<open>auto simp: counted_def list_all_iff\<close>)
  have head: "0 \<le> numeric (snd e)" using Cons.prems(1) by (auto simp: counted_def)
  show ?case
  proof (cases "(k, v) = e")
    case True
    with nonneg show ?thesis by (auto simp: sumFrequencies_def)
  next
    case False
    with Cons.prems(2) have "(k, v) \<in> set counts" by auto
    from Cons.IH [OF tail this] head show ?thesis by (simp add: sumFrequencies_def)
  qed
qed

lemma conserved_I:
  assumes "\<And>c b. map_of (categories s) c = Some b \<Longrightarrow>
     \<exists>counts. map_of (wordFrequencyCount s) c = Some counts \<and> counted counts
        \<and> map_of (wordCount s) c = Some (Num (Fin (sumFrequencies counts)))"
  shows "conserved s"
  using assms unfolding conserved_def by blast

lemma conserved_D:
  assumes "conserved s" and "map_of (categories s) c = Some b"
  shows "\<exists>counts. map_of (wordFrequencyCount s) c = Some counts \<and> counted counts
        \<and> map_of (wordCount s) c = Some (Num (Fin (sumFrequencies counts)))"
  using assms unfolding conserved_def by blast

lemma learnToken_conserved:
  assumes cons: "conserved s" and inv: "cat_inv s" and tab: "table_ok table"
      and mem: "token \<in> fst ` set table" and pl: "plain token"
      and run: "learnToken c table s token = Inr s'"
  shows "conserved s'"
proof -
  from run obtain s1 s2 where
    1: "updateVocabulary s token = Inr s1" and 2: "updateFrequency c table s1 token = Inr s2"
    and 3: "updateWordCount c table s2 token = Inr s'"
    by (auto simp: learnToken_def bind_Inr_iff)
  note e1 = updateVocabulary_others [OF 1] and e2 = updateFrequency_others [OF 2]
    and e3 = updateWordCount_others [OF 3]
  from frequencyInText_key [OF tab mem] obtain n where n: "frequencyInText table token = Fin n" "0 < n"
    by blast
  have np: "token \<noteq> str ''__proto__''" using pl by (rule plain_not_proto)
  show ?thesis
  proof (rule conserved_I)
    fix c' b
    assume "map_of (categories s') c' = Some b"
    then have mem': "map_of (categories s) c' = Some b" using e1 e2 e3 by simp
    from conserved_D [OF cons mem'] obtain counts where
      counts: "map_of (wordFrequencyCount s) c' = Some counts" "counted counts"
        "map_of (wordCount s) c' = Some (Num (Fin (sumFrequencies counts)))"
      by blast
    show "\<exists>counts. map_of (wordFrequencyCount s') c' = Some counts \<and> counted counts
        \<and> map_of (wordCount s') c' = Some (Num (Fin (sumFrequencies counts)))"
    proof (cases "c' = c")
      case False
      have "frame c' s1 s2" using 2 False by (rule updateFrequency_frame)
      moreover have "frame c' s2 s'" using 3 False by (rule updateWordCount_frame)
      ultimately show ?thesis using counts e1 by (simp add: frame_def)
    next
      case True
      from cat_inv_D(2) [OF inv mem'] True have pc: "plain c" by (simp add: category_ok_def)
      have g: "get (wordFrequencyCount s1) c = Own counts"
        using counts(1) True e1 by (simp add: get_def)
      define old where "old = (case map_of counts token of Some v \<Rightarrow> numeric v | None \<Rightarrow> 0)"
      have stored: "(if \<not> truthy (lookup_val (get counts token))
            then Inr (Num (frequencyInText table token))
            else js_plus (lookup_val (get counts token)) (Prim (Num (frequencyInText table token))))
          = Inr (Num (Fin (old + n)))"
      proof (cases "map_of counts token")
        case None
        then show ?thesis using pl n by (simp add: get_plain lookup_val_def old_def)
      next
        case (Some v)
        from counted_lookup [OF counts(2) Some] obtain m where "v = Num (Fin m)" "0 < m" by blast
        with Some show ?thesis using pl n by (simp add: get_plain lookup_val_def old_def plus_counts)
      qed
      have s2: "s2 = s1 \<lparr> wordFrequencyCount :=
          AList.update c (AList.update token (Num (Fin (old + n))) counts) (wordFrequencyCount s1) \<rparr>"
        using 2 g stored np by (simp add: updateFrequency_def put_def)
      have "0 < old + n"
      proof (cases "map_of counts token")
        case None
        then show ?thesis using n by (simp add: old_def)
      next
        case (Some v)
        from counted_lookup [OF counts(2) Some] obtain m where "v = Num (Fin m)" "0 < m" by blast
        with Some n show ?thesis by (simp add: old_def)
      qed
      then have c2: "counted (AList.update token (Num (Fin (old + n))) counts)"
        using counts(2) pl by (simp add: counted_update)
      have sum: "sumFrequencies (AList.update token (Num (Fin (old + n))) counts)
          = sumFrequencies counts + n"
        by (simp add: sumFrequencies_update old_def)
      have "get (wordCount s2) c = Own (Num (Fin (sumFrequencies counts)))"
        using counts(3) True e1 e2 by (simp add: get_def)
      with 3 n have s': "s' = s2 \<lparr> wordCount := put (wordCount s2) c (Num (Fin (sumFrequencies counts + n))) \<rparr>"
        by (simp add: updateWordCount_def lookup_val_def plus_counts)
      show ?thesis
        using True pc c2 sum by (simp add: s' s2 update_conv' map_of_put_plain)
    qed
  qed
qed

lemma learnTokens_conserved:
  assumes "table_ok table" and "learnTokens c table s tokens = Inr s'"
      and "vocab_inv s" and "cat_inv s" and "conserved s"
      and "\<forall>t\<in>set tokens. plain t \<and> t \<in> fst ` set table"
  shows "conserved s'"
  using assms(2-)
proof (induction tokens arbitrary: s)
  case Nil
  then show ?case by simp
next
  case (Cons token rest)
  from Cons.prems(1) obtain s1 where
    1: "learnToken c table s token = Inr s1" and 2: "learnTokens c table s1 rest = Inr s'"
    by (auto split: sum.splits)
  from Cons.prems(5) have tok: "token \<in> fst ` set table" "plain token" by simp_all
  from learnToken_inv [OF Cons.prems(2,3) assms(1) tok(1) 1]
  have i1: "vocab_inv s1" "cat_inv s1" by simp_all
  have c1: "conserved s1"
    using Cons.prems(4,3) assms(1) tok 1 by (rule learnToken_conserved)
  from Cons.IH [OF 2 i1 c1] Cons.prems(5) show ?case by simp
qed

lemma initializeCategory_tokenizer: "initializeCategory s c = Inr s1 \<Longrightarrow> tokenizer s1 = tokenizer s"
  by (auto simp: initializeCategory_def split: if_splits)

lemma learn_prefix_conserved:
  assumes cons: "conserved s" and inv: "cat_inv s" and init: "initializeCategory s c = Inr s1"
  shows "conserved (s1 \<lparr> docCount := d, totalDocuments := t \<rparr>)"
proof (cases "map_of (categories s) c = None \<and> plain c")
  case False
  have "s1 = s"
  proof (cases "map_of (categories s) c")
    case None
    with False init show ?thesis
      by (auto simp: initializeCategory_def get_def truthy_flag_def plain_def split: option.splits)
  next
    case (Some b)
    from cat_inv_D(1) [OF inv Some] Some init show ?thesis
      by (simp add: initializeCategory_def get_def truthy_flag_def)
  qed
  with cons show ?thesis by (simp add: conserved_def)
next
  case True
  then have np: "c \<noteq> str ''__proto__''" by (simp add: plain_not_proto)
  from True have "\<not> truthy_flag (get (categories s) c)"
    by (simp add: get_plain truthy_flag_def)
  with init np have s1: "s1 = s
       \<lparr> docCount := put (docCount s) c (Num (Fin 0)),
         wordCount := put (wordCount s) c (Num (Fin 0)),
         wordFrequencyCount := AList.update c [] (wordFrequencyCount s),
         categories := put (categories s) c True \<rparr>"
    by (simp add: initializeCategory_def)
  show ?thesis
  proof (rule conserved_I)
    fix c' b
    assume look: "map_of (categories (s1 \<lparr> docCount := d, totalDocuments := t \<rparr>)) c' = Some b"
    show "\<exists>counts. map_of (wordFrequencyCount (s1 \<lparr> docCount := d, totalDocuments := t \<rparr>)) c' = Some counts
        \<and> counted counts
        \<and> map_of (wordCount (s1 \<lparr> docCount := d, totalDocuments := t \<rparr>)) c'
            = Some (Num (Fin (sumFrequencies counts)))"
    proof (cases "c' = c")
      case same: True
      then show ?thesis
        using True by (simp add: s1 update_conv' map_of_put_plain counted_def sumFrequencies_def)
    next
      case other: False
      with look have "map_of (categories s) c' = Some b"
        by (simp add: s1 map_of_put_other)
      from conserved_D [OF cons this] other show ?thesis
        by (simp add: s1 update_conv' map_of_put_other)
    qed
  qed
qed

lemma learn_conserved:
  assumes "vocab_inv s" and "cat_inv s" and "conserved s"
      and "list_all plain (tokenizer s text)" and "learn s text c = Inr s'"
  shows "conserved s'"
proof -
  from assms(5) obtain s1 count documents where
    init: "initializeCategory s c = Inr s1" and
    cnt: "increment (lookup_val (get (docCount s1) c)) = Inr count" and
    doc: "increment (Prim (totalDocuments s1)) = Inr documents" and
    loop: "learnTokens c (frequencyTable (tokenizer s1 text))
             (s1 \<lparr> docCount := put (docCount s1) c count, totalDocuments := documents \<rparr>)
             (Object_keys (frequencyTable (tokenizer s1 text))) = Inr s'"
    by (auto simp: learn_def bind_Inr_iff Let_def)
  let ?s2 = "s1 \<lparr> docCount := put (docCount s1) c count, totalDocuments := documents \<rparr>"
  note v = initializeCategory_vocab [OF init] and t = initializeCategory_tokenizer [OF init]
  have 1: "vocab_inv ?s2" using assms(1) v by (simp add: vocab_inv_def)
  have 2: "cat_inv ?s2" using assms(2) init cnt doc by (rule learn_prefix_cat_inv)
  have 3: "conserved ?s2" using assms(3,2) init by (rule learn_prefix_conserved)
  have 4: "\<forall>k\<in>set (Object_keys (frequencyTable (tokenizer s1 text))).
      plain k \<and> k \<in> fst ` set (frequencyTable (tokenizer s1 text))"
    using assms(4) by (simp add: set_Object_keys frequencyTable_keys t list_all_iff)
  from learnTokens_conserved [OF frequencyTable_ok loop 1 2 3 4] show ?thesis .
qed

lemma reachable_plain_reachable: "reachable_plain s \<Longrightarrow> reachable s"
  by (induction rule: reachable_plain.induct) (auto intro: reachable.intros)

lemma reachable_plain_conserved: "reachable_plain s \<Longrightarrow> conserved s"
proof (induction rule: reachable_plain.induct)
  case (fresh_plain opts)
  show ?case by (simp add: conserved_def new_Bayes_def Let_def)
next
  case (learned_plain s t c s')
  from reachable_inv [OF reachable_plain_reachable [OF learned_plain.hyps(1)]]
  have "vocab_inv s" "cat_inv s" by simp_all
  then show ?case
    using learned_plain.IH learned_plain.hyps(2,3) by (rule learn_conserved)
qed

lemma count_conservation_plain:
  assumes "reachable_plain s" and "map_of (categories s) c = Some b"
  shows "\<exists>counts. map_of (wordFrequencyCount s) c = Some counts
           \<and> list_all (\<lambda>e. \<exists>n. snd e = Num (Fin n) \<and> 0 < n) counts
           \<and> map_of (wordCount s) c = Some (Num (Fin (sumFrequencies counts)))"
proof -
  from conserved_D [OF reachable_plain_conserved [OF assms(1)] assms(2)] obtain counts where
    "map_of (wordFrequencyCount s) c = Some counts" "counted counts"
    "map_of (wordCount s) c = Some (Num (Fin (sumFrequencies counts)))"
    by blast
  then show ?thesis by (auto simp: counted_def list_all_iff)
qed

lemma tokenProbability_plain:
  assumes "reachable_plain s" and "map_of (categories s) c = Some b" and "plain token"
  shows "\<exists>counts w v.
           map_of (wordFrequencyCount s) c = Some counts
         \<and> map_of (wordCount s) c = Some (Num (Fin w))
         \<and> vocabularySize s = Num (Fin v)
         \<and> tokenProbability s token c
             = Inr (js_div (Fin ((case map_of counts token of Some x \<Rightarrow> numeric x | None \<Rightarrow> 0) + 1))
                           (Fin (w + v)))
         \<and> (v < 1 \<or> (\<exists>p. tokenProbability s token c = Inr (Fin p) \<and> 0 < p \<and> p \<le> 1))"
proof -
  from reachable_inv [OF reachable_plain_reachable [OF assms(1)]] have vi: "vocab_inv s" by simp
  from conserved_D [OF reachable_plain_conserved [OF assms(1)] assms(2)] obtain counts where
    counts: "map_of (wordFrequencyCount s) c = Some counts" "counted counts"
      "map_of (wordCount s) c = Some (Num (Fin (sumFrequencies counts)))"
    by blast
  from vocabularySize_count [OF vi] obtain v where v: "vocabularySize s = Num (Fin v)" "0 \<le> v"
    by blast
  define n where "n = (case map_of counts token of Some x \<Rightarrow> numeric x | None \<Rightarrow> 0)"
  let ?w = "sumFrequencies counts"
  have "(if truthy (lookup_val (get counts token)) then lookup_val (get counts token)
         else Prim (Num (Fin 0))) = Prim (Num (Fin n)) \<and> 0 \<le> n \<and> n \<le> ?w"
  proof (cases "map_of counts token")
    case None
    have "0 \<le> ?w"
      unfolding sumFrequencies_def
      by (rule sum_list_nonneg) (use counts(2) in \<open>auto simp: counted_def list_all_iff\<close>)
    with None show "(if truthy (lookup_val (get counts token)) then lookup_val (get counts token)
               else Prim (Num (Fin 0))) = Prim (Num (Fin n)) \<and> 0 \<le> n \<and> n \<le> ?w"
      using assms(3) by (simp add: get_plain lookup_val_def n_def)
  next
    case (Some x)
    from counted_lookup [OF counts(2) Some] obtain m where m: "x = Num (Fin m)" "0 < m" by blast
    from Some have "(token, x) \<in> set counts" by (rule map_of_SomeD)
    from counted_le_sum [OF counts(2) this] m have "m \<le> ?w" by simp
    with Some m show "(if truthy (lookup_val (get counts token)) then lookup_val (get counts token)
               else Prim (Num (Fin 0))) = Prim (Num (Fin n)) \<and> 0 \<le> n \<and> n \<le> ?w"
      using assms(3) by (simp add: get_plain lookup_val_def n_def)
  qed
  then have found: "(if truthy (lookup_val (get counts token)) then lookup_val (get counts token)
               else Prim (Num (Fin 0))) = Prim (Num (Fin n))"
    and bounds: "0 \<le> n" "n \<le> ?w"
    by simp_all
  have g: "get (wordFrequencyCount s) c = Own counts"
    using counts(1) by (simp add: get_def)
  have lw: "lookup_val (get (wordCount s) c) = Prim (Num (Fin ?w))"
    using counts(3) by (simp add: get_def lookup_val_def)
  have eq: "tokenProbability s token c = Inr (js_div (Fin (n + 1)) (Fin (?w + v)))"
    by (subst tokenProbability_own [OF g], subst found) (simp add: lw v(1) plus_counts)
  have "\<exists>p. tokenProbability s token c = Inr (Fin p) \<and> 0 < p \<and> p \<le> 1" if "1 \<le> v"
  proof -
    from that bounds have pos: "0 < ?w + v" and le: "n + 1 \<le> ?w + v" by simp_all
    then have "js_div (Fin (n + 1)) (Fin (?w + v)) = Fin ((n + 1) / (?w + v))" by simp
    moreover have "0 < (n + 1) / (?w + v)" using bounds(1) pos by simp
    moreover have "(n + 1) / (?w + v) \<le> 1" using pos le by simp
    ultimately show ?thesis using eq by simp
  qed
  then have "v < 1 \<or> (\<exists>p. tokenProbability s token c = Inr (Fin p) \<and> 0 < p \<and> p \<le> 1)"
    by fastforce
  with counts(1,3) v(1) eq show ?thesis
    unfolding n_def by blast
qed

lemma learn_no_tokens:
  assumes "tokenizer s text = []" and "initializeCategory s c = Inr s1"
  shows "learn s text c =
     bind (increment (lookup_val (get (docCount s1) c)))
       (\<lambda>count. bind (increment (Prim (totalDocuments s1)))
       (\<lambda>documents. Inr (s1 \<lparr> docCount := put (docCount s1) c count, totalDocuments := documents \<rparr>)))"
  using assms initializeCategory_tokenizer [OF assms(2)]
  by (simp add: learn_def frequencyTable_def Object_keys_def Let_def)

subsection \<open>The characters the default tokenizer keeps\<close>

lemma rgxPunctuation_iff:
  "rgxPunctuation c \<longleftrightarrow>
     \<not> (c = 0x28 \<or> c = 0x29 \<or> c = 0x2B \<or> (0x30 \<le> c \<and> c \<le> 0x39)
        \<or> (0x41 \<le> c \<and> c \<le> 0x44F) \<or> isWhiteSpace c)"
  unfolding rgxPunctuation_def by (auto simp: word_le_nat_alt)

subsection \<open>Evaluation\<close>

lemmas evaluation =
  str_def defaultTokenizer_def rgxPunctuation_def isWhiteSpace_def new_Bayes_def learn_def
  initializeCategory_def learnToken_def updateVocabulary_def updateFrequency_def updateWordCount_def
  bind_def get_def put_def inherited_def prototypeFunctions_def
  Object_keys_def isArrayIndex_def isDigit_def decimalValue_def frequencyTable_def countToken_def
  frequencyInText_def increment_def lookup_val_def truthy_flag_def js_plus_def numberToString_def
  stringToNumber_def numericLiteralChar_def

lemmas evaluation2 = evaluation categorize_def tokenProbability_def sortResults_def compareFn_def
  js_sub_def signed_inf_def Let_def

lemmas evaluation3 = evaluation2 fromJson_def toJson_def json_of_bayes_def restore_def json_of_obj_def
  obj_of_json_def leaf_of_json_def

lemma defaultTokenizer_example:
  "defaultTokenizer (str ''Hello, world! 123'') = [str ''Hello'', str ''world'', str ''123'']"
  by (simp add: evaluation)

lemma defaultTokenizer_empty_text: "defaultTokenizer [] = [[]]"
  by (simp add: evaluation)

section \<open>The claims\<close>

text \<open>
  C1. Count conservation after any sequence of \<^verbatim>\<open>learn\<close> calls: for a category in
  \<^verbatim>\<open>categories\<close>, \<^verbatim>\<open>wordCount[category]\<close> is the sum of the entries of
  \<^verbatim>\<open>wordFrequencyCount[category]\<close>. The code breaks it on a token that names a property every
  object inherits. After \<^verbatim>\<open>learn("constructor", "spam")\<close> on a new classifier the word count of
  the category is 1, and its only frequency entry is not a number: the inherited function was
  found where no count was expected (\<^verbatim>\<open>frequencyTable\<close> avoids this with
  \<^verbatim>\<open>Object.create(null)\<close>), and \<^verbatim>\<open>+=\<close> made a string of it.
\<close>

theorem learn_constructor_token:
  "learn (new_Bayes None None) (str ''constructor'') (str ''spam'') =
     Inr \<lparr> docCount = [(str ''spam'', Num (Fin 1))],
           wordCount = [(str ''spam'', Num (Fin 1))],
           wordFrequencyCount =
             [(str ''spam'', [(str ''constructor'', Str (str ''function Object() { [native code] }1''))])],
           categories = [(str ''spam'', True)],
           totalDocuments = Num (Fin 1), vocabularySize = Num (Fin 0),
           options = None, tokenizer = defaultTokenizer, vocabulary = [] \<rparr>"
  by (simp add: evaluation)

text \<open>
  C2. \<^verbatim>\<open>tokenProbability(token, category)\<close> is \<open>(frequency + 1) / (totalWords + vocabularySize)\<close>,
  with frequency 0 for a token without entry, and lies in \<open>(0, 1]\<close> once something was learned.
  The code breaks it on the same tokens as in C1: after \<^verbatim>\<open>learn("hello", "spam")\<close> the token
  \<^verbatim>\<open>constructor\<close> has no entry, the claim gives \<open>(0 + 1) / (1 + 1)\<close>, and the code returns
  \<open>NaN\<close>.
\<close>

theorem tokenProbability_constructor:
  "bind (learn (new_Bayes None None) (str ''hello'') (str ''spam''))
     (\<lambda>s. tokenProbability s (str ''constructor'') (str ''spam'')) = Inr NaN"
  by (simp add: evaluation2)



text \<open>
  C4, as amended. For a classifier whose stored numbers are all finite,
  \<^verbatim>\<open>fromJson(toJson())\<close> returns a classifier with the same members of \<^verbatim>\<open>docCount\<close>,
  \<^verbatim>\<open>wordCount\<close>, \<^verbatim>\<open>wordFrequencyCount\<close> (per category), \<^verbatim>\<open>categories\<close> and \<^verbatim>\<open>vocabulary\<close>,
  and the same \<^verbatim>\<open>totalDocuments\<close> and \<^verbatim>\<open>vocabularySize\<close>.
\<close>

theorem roundtrip_finite:
  assumes "JSON_parse (JSON_stringify (json_of_bayes s)) = Some (json_of_bayes s)"
      and "finite_numbers s"
  shows "\<exists>s'. fromJson JSON_parse (toJson JSON_stringify s) = Inr s'
           \<and> map_of (docCount s') = map_of (docCount s)
           \<and> map_of (wordCount s') = map_of (wordCount s)
           \<and> (\<forall>c. rel_option (\<lambda>a b. map_of a = map_of b)
                    (map_of (wordFrequencyCount s') c) (map_of (wordFrequencyCount s) c))
           \<and> map_of (categories s') = map_of (categories s)
           \<and> totalDocuments s' = totalDocuments s
           \<and> map_of (vocabulary s') = map_of (vocabulary s)
           \<and> vocabularySize s' = vocabularySize s"
proof -
  have nested: "rel_option (\<lambda>a b. map_of a = map_of b)
      (map_of (restored_obj (restored_obj restored_prim) (wordFrequencyCount s)) c)
      (map_of (wordFrequencyCount s) c)" for c
  proof (cases "map_of (wordFrequencyCount s) c")
    case None
    then show ?thesis by (simp add: map_of_restored_obj)
  next
    case (Some counts)
    then have "(c, counts) \<in> set (wordFrequencyCount s)" by (rule map_of_SomeD)
    with assms(2) have "list_all (\<lambda>e. finite_prim (snd e)) counts"
      by (auto simp: finite_numbers_def list_all_iff)
    then show ?thesis
      by (simp add: Some map_of_restored_obj restored_obj_finite)
  qed
  have "fromJson JSON_parse (toJson JSON_stringify s) = restore (json_of_bayes s)"
    using assms(1) by (rule fromJson_toJson)
  then show ?thesis
    using assms(2) nested
    by (simp add: restore_json_of_bayes finite_numbers_def
        restored_obj_finite restored_obj_id restored_prim_finite)
qed

theorem roundtrip_finite_witness:
  "Some ((\<lambda>j. j) (json_of_bayes \<lparr> docCount = [(str ''spam'', Num (Fin 1))],
           wordCount = [(str ''spam'', Num (Fin 1))],
           wordFrequencyCount = [(str ''spam'', [(str ''hello'', Num (Fin 1))])],
           categories = [(str ''spam'', True)],
           totalDocuments = Num (Fin 1), vocabularySize = Num (Fin 1),
           options = None, tokenizer = defaultTokenizer, vocabulary = [(str ''hello'', True)] \<rparr>))
   = Some (json_of_bayes \<lparr> docCount = [(str ''spam'', Num (Fin 1))],
           wordCount = [(str ''spam'', Num (Fin 1))],
           wordFrequencyCount = [(str ''spam'', [(str ''hello'', Num (Fin 1))])],
           categories = [(str ''spam'', True)],
           totalDocuments = Num (Fin 1), vocabularySize = Num (Fin 1),
           options = None, tokenizer = defaultTokenizer, vocabulary = [(str ''hello'', True)] \<rparr>)
   \<and> finite_numbers \<lparr> docCount = [(str ''spam'', Num (Fin 1))],
           wordCount = [(str ''spam'', Num (Fin 1))],
           wordFrequencyCount = [(str ''spam'', [(str ''hello'', Num (Fin 1))])],
           categories = [(str ''spam'', True)],
           totalDocuments = Num (Fin 1), vocabularySize = Num (Fin 1),
           options = None, tokenizer = defaultTokenizer, vocabulary = [(str ''hello'', True)] \<rparr>
   \<and> (\<exists>s'. fromJson Some (toJson (\<lambda>j. j) \<lparr> docCount = [(str ''spam'', Num (Fin 1))],
           wordCount = [(str ''spam'', Num (Fin 1))],
           wordFrequencyCount = [(str ''spam'', [(str ''hello'', Num (Fin 1))])],
           categories = [(str ''spam'', True)],
           totalDocuments = Num (Fin 1), vocabularySize = Num (Fin 1),
           options = None, tokenizer = defaultTokenizer, vocabulary = [(str ''hello'', True)] \<rparr>) = Inr s'
         \<and> map_of (docCount s') = map_of [(str ''spam'', Num (Fin 1))]
         \<and> map_of (wordCount s') = map_of [(str ''spam'', Num (Fin 1))]
         \<and> (\<forall>c. rel_option (\<lambda>a b. map_of a = map_of b)
               (map_of (wordFrequencyCount s') c)
               (map_of [(str ''spam'', [(str ''hello'', Num (Fin 1))])] c))
         \<and> map_of (categories s') = map_of [(str ''spam'', True)]
         \<and> totalDocuments s' = Num (Fin 1)
         \<and> map_of (vocabulary s') = map_of [(str ''hello'', True)]
         \<and> vocabularySize s' = Num (Fin 1))"
proof -
  let ?s = "\<lparr> docCount = [(str ''spam'', Num (Fin 1))],
           wordCount = [(str ''spam'', Num (Fin 1))],
           wordFrequencyCount = [(str ''spam'', [(str ''hello'', Num (Fin 1))])],
           categories = [(str ''spam'', True)],
           totalDocuments = Num (Fin 1), vocabularySize = Num (Fin 1),
           options = None, tokenizer = defaultTokenizer, vocabulary = [(str ''hello'', True)] \<rparr>"
  have codec: "Some ((\<lambda>j. j) (json_of_bayes ?s)) = Some (json_of_bayes ?s)"
    by simp
  have fin: "finite_numbers ?s"
    by (simp add: finite_numbers_def)
  from roundtrip_finite [where JSON_parse = Some and JSON_stringify = "\<lambda>j. j", OF codec fin] codec fin
  show ?thesis by simp
qed

text \<open>
  C4 as stated, for every classifier, fails: JSON has no \<open>NaN\<close>. A classifier whose
  tokenizer finds no token, after \<^verbatim>\<open>learn("some text", "constructor")\<close>, holds
  \<^verbatim>\<open>docCount.constructor = NaN\<close>; its restored copy holds \<^verbatim>\<open>null\<close> there.
\<close>

theorem roundtrip_nan_counterexample:
  "bind (learn (new_Bayes None (Some (Some (\<lambda>t. [])))) (str ''some text'') (str ''constructor''))
     (\<lambda>s. bind (fromJson Some (toJson (\<lambda>j. j) s)) (\<lambda>s'. Inr (docCount s, docCount s')))
   = Inr ([(str ''constructor'', Num NaN)], [(str ''constructor'', Null)])"
  by (simp add: evaluation3)




text \<open>
  C6. \<^verbatim>\<open>fromJson\<close> fails exactly when its input is not valid JSON, and with the format
  error. The code breaks it on the valid text \<^verbatim>\<open>null\<close>: \<^verbatim>\<open>JSON.parse\<close> returns \<^verbatim>\<open>null\<close>,
  and the read \<^verbatim>\<open>parsed.options\<close>, outside the \<^verbatim>\<open>try\<close> block, throws a \<^verbatim>\<open>TypeError\<close>.
\<close>

theorem fromJson_null:
  "JSON_parse jsonStr = Some JsonNull \<Longrightarrow> fromJson JSON_parse jsonStr = Inl TypeError"
  by (simp add: fromJson_def)

theorem fromJson_null_witness:
  "(\<lambda>t. if t = str ''null'' then Some JsonNull else None) (str ''null'') = Some JsonNull
   \<and> fromJson (\<lambda>t. if t = str ''null'' then Some JsonNull else None) (str ''null'') = Inl TypeError"
  using fromJson_null [of "\<lambda>t. if t = str ''null'' then Some JsonNull else None" "str ''null''"]
  by simp

text \<open>
  C7. \<^verbatim>\<open>categorize\<close> on a classifier without categories returns a result whose list of
  category results is empty and whose chosen category and probability are undefined; it
  does not throw.
\<close>

theorem categorize_no_categories:
  "categories s = [] \<Longrightarrow>
   categorize s text = Inr \<lparr> chosenCategory = None, probability = None, categoryResults = [] \<rparr>"
  by (simp add: categorize_def Object_keys_def sortResults_def)

theorem categorize_no_categories_witness:
  "categories (new_Bayes None None) = [] \<and>
   categorize (new_Bayes None None) (str ''I love rain'') =
     Inr \<lparr> chosenCategory = None, probability = None, categoryResults = [] \<rparr>"
  using categorize_no_categories [of "new_Bayes None None" "str ''I love rain''"]
  by (simp add: new_Bayes_def)

text \<open>
  C8. \<^verbatim>\<open>learn\<close> with the empty text leaves the frequencies of the category as they were.
  The code breaks it with the default tokenizer, which splits the empty text into one
  token, the empty string: that token enters the vocabulary and the frequencies, and the
  word count of the category becomes 1.
\<close>

theorem learn_empty_text:
  "learn (new_Bayes None None) (str '''') (str ''spam'') =
     Inr \<lparr> docCount = [(str ''spam'', Num (Fin 1))],
           wordCount = [(str ''spam'', Num (Fin 1))],
           wordFrequencyCount = [(str ''spam'', [(str '''', Num (Fin 1))])],
           categories = [(str ''spam'', True)],
           totalDocuments = Num (Fin 1), vocabularySize = Num (Fin 1),
           options = None, tokenizer = defaultTokenizer, vocabulary = [(str '''', True)] \<rparr>"
  by (simp add: evaluation)

text \<open>
  C9. The default tokenizer replaces every character that is neither a word character
  nor white space by a space. The code breaks it: the character class of its regular
  expression lists \<^verbatim>\<open>(\<close>, \<^verbatim>\<open>)\<close> and \<^verbatim>\<open>+\<close> themselves, and its two ranges that end at a
  Cyrillic letter start at a Latin one, so they hold every character between, among them
  \<^verbatim>\<open>[\<close>, \<^verbatim>\<open>]\<close> and \<^verbatim>\<open>^\<close>.
\<close>

theorem defaultTokenizer_keeps_punctuation:
  "defaultTokenizer (str ''a+b (c) [d] e^f'') = [str ''a+b'', str ''(c)'', str ''[d]'', str ''e^f'']"
  by (simp add: evaluation)



end
